theory Spec2Isabelle
  imports Complex_Main
begin

section \<open>Utility functions (utils): chunking\<close>

text \<open>
  JavaScript strings are modelled as \<open>string\<close> (a list of characters, one per code
  unit), \<open>text.length\<close> as \<open>int (length text)\<close>, and the numeric arguments
  \<open>chunkSize\<close> and \<open>overlap\<close> as integers of either sign.

  \<open>text.slice(start, end)\<close>: a negative index counts from the end of the string, both
  indices are clamped into \<open>0 .. length\<close>, and the result is empty when the clamped
  start is not before the clamped end.
\<close>

definition slice_index :: "int \<Rightarrow> int \<Rightarrow> nat" where
  "slice_index len i = nat (if i < 0 then max (len + i) 0 else min i len)"

definition slice :: "string \<Rightarrow> int \<Rightarrow> int \<Rightarrow> string" where
  "slice text start end =
     (let len = int (length text);
          from = slice_index len start;
          to = slice_index len end
      in take (to - from) (drop from text))"

text \<open>
  The \<open>while (start < text.length)\<close> loop of \<open>chunkText\<close>. The loop has no bound of its
  own, so it is a partial function into \<open>option\<close>: \<open>None\<close> is "the loop never exits"
  (on a machine, the array \<open>chunks\<close> then grows by one element per round until memory
  is exhausted).
\<close>

partial_function (option) chunk_loop ::
  "string \<Rightarrow> int \<Rightarrow> int \<Rightarrow> int \<Rightarrow> string list \<Rightarrow> string list option" where
  "chunk_loop text chunkSize overlap start chunks =
     (if start < int (length text) then
        (let end = min (start + chunkSize) (int (length text));
             chunk = slice text start end
         in chunk_loop text chunkSize overlap (end - overlap) (chunks @ [chunk]))
      else Some chunks)"

definition chunkText :: "string \<Rightarrow> int \<Rightarrow> int \<Rightarrow> string list option" where
  "chunkText text chunkSize overlap =
     (if int (length text) \<le> chunkSize then Some [text]
      else chunk_loop text chunkSize overlap 0 [])"

text \<open>\<open>estimateTokenCount\<close>: \<open>Math.ceil(text.length / 4)\<close>.\<close>

definition estimateTokenCount :: "string \<Rightarrow> int" where
  "estimateTokenCount text = (int (length text) + 3) div 4"

section \<open>Data model (models)\<close>

type_synonym vector = "real list"

datatype DocumentType =
  PDF | DOCX | TXT | MD | HTML | JSON | CSV
  | CODE | DOCUMENTATION | CONFIGURATION
  | DEVELOPMENT_HISTORY | DEVELOPMENT_STATUS | PROJECT_STRUCTURE

datatype DocumentStatus = PENDING | PROCESSING | COMPLETED | FAILED | ARCHIVED

text \<open>
  A thrown value is either a plain \<open>Error\<close> with its message or an \<open>AppError\<close> with
  message, status code and code (the \<open>details\<close> payload is not modelled).
\<close>

datatype js_error = Error string | AppError string int string

record DocumentMetadata =
  source :: string
  doc_type :: DocumentType
  tags :: "string list"
  language :: string
  doc_size :: int
  mime_type :: string
  filePath :: "string option"

record ChunkMetadata =
  chunk_index :: nat
  start_position :: int
  end_position :: int
  overlap_with_previous :: int
  overlap_with_next :: int
  token_count :: int

record DocumentChunk =
  chunk_id :: string
  document_id :: string
  chunk_content :: string
  chunk_embedding :: "vector option"
  chunk_metadata :: ChunkMetadata
  chunk_created_at :: nat

record Document =
  doc_id :: string
  title :: string
  content :: string
  metadata :: DocumentMetadata
  chunks :: "DocumentChunk list"
  embedding :: "vector option"
  created_at :: nat
  updated_at :: nat
  version :: nat
  status :: DocumentStatus

record CreateDocumentRequest =
  req_title :: string
  req_content :: string
  req_metadata :: DocumentMetadata

section \<open>DocumentService: adding a document with chunks\<close>

text \<open>
  The collaborators of \<open>DocumentService\<close> are parameters: the embedding service, the
  vector store, the UUID generator (\<open>svc_uuid k\<close> is the k-th identifier generated during
  the call) and the clock. Each collaborator call takes the state \<open>'w\<close> of the outside
  world and returns either a thrown error or a value, with the new state.
\<close>

record 'w services =
  svc_generateEmbedding :: "string \<Rightarrow> 'w \<Rightarrow> (js_error + vector) \<times> 'w"
  svc_generateChunkEmbeddings :: "string list \<Rightarrow> 'w \<Rightarrow> (js_error + vector list) \<times> 'w"
  svc_addDocument :: "Document \<Rightarrow> 'w \<Rightarrow> (js_error + unit) \<times> 'w"
  svc_uuid :: "nat \<Rightarrow> string"
  svc_now :: nat

text \<open>\<open>chunkEmbeddings[index]\<close>: \<open>undefined\<close> (here \<open>None\<close>) past the end of the array.\<close>

definition at_index :: "'a list \<Rightarrow> nat \<Rightarrow> 'a option" where
  "at_index xs i = (if i < length xs then Some (xs ! i) else None)"

text \<open>
  The callback of \<open>textChunks.map((content, index) => ...)\<close>: \<open>n\<close> is
  \<open>textChunks.length\<close> and \<open>contentLength\<close> is \<open>request.content.length\<close>.
\<close>

definition mkChunk ::
  "'w services \<Rightarrow> string \<Rightarrow> vector list \<Rightarrow> int \<Rightarrow> int \<Rightarrow> nat \<Rightarrow> int \<Rightarrow>
   nat \<times> string \<Rightarrow> DocumentChunk" where
  "mkChunk svc documentId chunkEmbeddings chunkSize overlap n contentLength p =
     (case p of (index, c) \<Rightarrow>
        \<lparr> chunk_id = ''chunk_'' @ svc_uuid svc (Suc index),
          document_id = documentId,
          chunk_content = c,
          chunk_embedding = at_index chunkEmbeddings index,
          chunk_metadata =
            \<lparr> chunk_index = index,
              start_position = int index * (chunkSize - overlap),
              end_position = min ((int index + 1) * chunkSize) contentLength,
              overlap_with_previous = (if 0 < index then overlap else 0),
              overlap_with_next = (if int index < int n - 1 then overlap else 0),
              token_count = estimateTokenCount c \<rparr>,
          chunk_created_at = svc_now svc \<rparr>)"

definition buildChunks ::
  "'w services \<Rightarrow> string \<Rightarrow> vector list \<Rightarrow> int \<Rightarrow> int \<Rightarrow> int \<Rightarrow> string list \<Rightarrow>
   DocumentChunk list" where
  "buildChunks svc documentId chunkEmbeddings chunkSize overlap contentLength textChunks =
     map (mkChunk svc documentId chunkEmbeddings chunkSize overlap (length textChunks) contentLength)
         (zip [0 ..< length textChunks] textChunks)"

definition addition_failed :: js_error where
  "addition_failed =
     AppError ''Failed to add document to knowledge base'' 500 ''DOCUMENT_ADDITION_FAILED''"

text \<open>
  \<open>addDocumentWithChunks\<close>: the result is \<open>None\<close> when the call never returns (the
  chunking loop does not exit); otherwise the thrown error or the document, with the
  state of the collaborators.
\<close>

definition addDocumentWithChunks ::
  "'w services \<Rightarrow> CreateDocumentRequest \<Rightarrow> int \<Rightarrow> int \<Rightarrow> 'w \<Rightarrow>
   ((js_error + Document) \<times> 'w) option" where
  "addDocumentWithChunks svc request chunkSize overlap w =
     (let documentId = svc_uuid svc 0;
          document = \<lparr> doc_id = documentId, title = req_title request,
                       content = req_content request, metadata = req_metadata request,
                       chunks = [], embedding = None,
                       created_at = svc_now svc, updated_at = svc_now svc,
                       version = 1, status = PROCESSING \<rparr>
      in case chunkText (req_content request) chunkSize overlap of
           None \<Rightarrow> None
         | Some textChunks \<Rightarrow>
             Some (case svc_generateChunkEmbeddings svc textChunks w of
                 (Inl e, w1) \<Rightarrow> (Inl addition_failed, w1)
               | (Inr chunkEmbeddings, w1) \<Rightarrow>
                   (let document1 = document
                          \<lparr> chunks := buildChunks svc documentId chunkEmbeddings chunkSize
                                       overlap (int (length (req_content request))) textChunks \<rparr>
                    in case svc_generateEmbedding svc (req_content request) w1 of
                         (Inl e, w2) \<Rightarrow> (Inl addition_failed, w2)
                       | (Inr documentEmbedding, w2) \<Rightarrow>
                           (let document2 = document1 \<lparr> embedding := Some documentEmbedding \<rparr>
                            in case svc_addDocument svc document2 w2 of
                                 (Inl e, w3) \<Rightarrow> (Inl addition_failed, w3)
                               | (Inr u, w3) \<Rightarrow>
                                   (Inr (document2 \<lparr> status := COMPLETED \<rparr>), w3)))))"

section \<open>Utility functions (utils): retry with exponential backoff\<close>

text \<open>
  The operation \<open>fn\<close> is a call into the outside world: it takes the state \<open>'s\<close> of that
  world and returns a thrown error (\<open>Inl\<close>) or a value (\<open>Inr\<close>) with the new state, so
  successive invocations may behave differently. A run of \<open>retryWithBackoff\<close> is
  recorded with its outcome, the state it leaves, the delays it waited (in order, in
  milliseconds) and the number of times it invoked \<open>fn\<close>.

  The outcome \<open>Inl None\<close> is \<open>throw lastError\<close> with \<open>lastError\<close> still unassigned,
  which is what is left when the loop body never runs (\<open>maxRetries < 0\<close>).
  \<open>maxRetries\<close> and \<open>baseDelay\<close> are integers.
\<close>

record ('e, 'a, 's) retry_run =
  outcome :: "'e option + 'a"
  after :: 's
  delays :: "int list"
  invocations :: nat

function retry_loop ::
  "('s \<Rightarrow> ('e + 'a) \<times> 's) \<Rightarrow> int \<Rightarrow> int \<Rightarrow> int \<Rightarrow> 'e option \<Rightarrow> 's \<Rightarrow> int list \<Rightarrow> nat \<Rightarrow>
   ('e, 'a, 's) retry_run" where
  "retry_loop fn maxRetries baseDelay attempt lastError s ws n =
     (if attempt \<le> maxRetries then
        (case fn s of
           (Inr v, s') \<Rightarrow> \<lparr> outcome = Inr v, after = s', delays = ws, invocations = Suc n \<rparr>
         | (Inl e, s') \<Rightarrow>
             (if attempt = maxRetries then
                \<lparr> outcome = Inl (Some e), after = s', delays = ws, invocations = Suc n \<rparr>
              else retry_loop fn maxRetries baseDelay (attempt + 1) (Some e) s'
                     (ws @ [baseDelay * 2 ^ nat attempt]) (Suc n)))
      else \<lparr> outcome = Inl lastError, after = s, delays = ws, invocations = n \<rparr>)"
  by pat_completeness auto
termination
  by (relation "measure (\<lambda>(fn, maxRetries, baseDelay, attempt, rest).
                  nat (maxRetries + 1 - attempt))") auto

declare retry_loop.simps [simp del]

definition retryWithBackoff ::
  "('s \<Rightarrow> ('e + 'a) \<times> 's) \<Rightarrow> int \<Rightarrow> int \<Rightarrow> 's \<Rightarrow> ('e, 'a, 's) retry_run" where
  "retryWithBackoff fn maxRetries baseDelay s = retry_loop fn maxRetries baseDelay 0 None s [] 0"

text \<open>The state of the outside world after \<open>k\<close> invocations of \<open>fn\<close>.\<close>

fun after_calls :: "('s \<Rightarrow> ('e + 'a) \<times> 's) \<Rightarrow> nat \<Rightarrow> 's \<Rightarrow> 's" where
  "after_calls fn 0 s = s"
| "after_calls fn (Suc k) s = after_calls fn k (snd (fn s))"

section \<open>Utility functions (utils): sanitizing text\<close>

text \<open>
  Characters are eight-bit code units. The whitespace class \<open>\s\<close> restricted to them is
  tab, line feed, vertical tab, form feed, carriage return, space and the no-break
  space; the word class \<open>\w\<close> is \<open>[A-Za-z0-9_]\<close>.
\<close>

definition isWhitespace :: "char \<Rightarrow> bool" where
  "isWhitespace c = (of_char c \<in> {9, 10, 11, 12, 13, 32, 160 :: nat})"

definition isWordChar :: "char \<Rightarrow> bool" where
  "isWordChar c =
     (let n = of_char c :: nat
      in (48 \<le> n \<and> n \<le> 57) \<or> (65 \<le> n \<and> n \<le> 90) \<or> n = 95 \<or> (97 \<le> n \<and> n \<le> 122))"

text \<open>
  \<open>.replace(/\s+/g, " ")\<close>: every maximal run of whitespace becomes one space; \<open>inRun\<close>
  tells whether the previous character belonged to a run already replaced.
\<close>

fun collapseWhitespace :: "bool \<Rightarrow> string \<Rightarrow> string" where
  "collapseWhitespace inRun [] = []"
| "collapseWhitespace inRun (c # cs) =
     (if isWhitespace c then
        (if inRun then collapseWhitespace True cs else CHR '' '' # collapseWhitespace True cs)
      else c # collapseWhitespace False cs)"

text \<open>\<open>.replace(/[^\w\s.,!?-]/g, "")\<close> keeps exactly the characters below.\<close>

definition keptBySanitize :: "char \<Rightarrow> bool" where
  "keptBySanitize c = (isWordChar c \<or> isWhitespace c \<or> c \<in> set ''.,!?-'')"

definition trim :: "string \<Rightarrow> string" where
  "trim s = rev (dropWhile isWhitespace (rev (dropWhile isWhitespace s)))"

definition sanitizeText :: "string \<Rightarrow> string" where
  "sanitizeText t = trim (filter keptBySanitize (collapseWhitespace False t))"

section \<open>EmbeddingService\<close>

record EmbeddingConfig =
  model :: string
  dimensions :: nat
  retries :: int

text \<open>
  The embedding provider behind the AI SDK: \<open>embed\<close> and \<open>embedMany\<close> are calls into
  the outside world with state \<open>'s\<close>, each returning a thrown error or the vectors.
\<close>

record 's ai_sdk =
  embed :: "string \<Rightarrow> 's \<Rightarrow> (js_error + vector) \<times> 's"
  embedMany :: "string list \<Rightarrow> 's \<Rightarrow> (js_error + vector list) \<times> 's"

definition empty_text :: js_error where
  "empty_text = AppError ''Text cannot be empty'' 400 ''EMPTY_TEXT''"

definition no_valid_texts :: js_error where
  "no_valid_texts = AppError ''No valid texts provided'' 400 ''NO_VALID_TEXTS''"

definition embedding_generation_failed :: js_error where
  "embedding_generation_failed =
     AppError ''Failed to generate embedding'' 500 ''EMBEDDING_GENERATION_FAILED''"

definition batch_embedding_generation_failed :: js_error where
  "batch_embedding_generation_failed =
     AppError ''Failed to generate embeddings'' 500 ''BATCH_EMBEDDING_GENERATION_FAILED''"

text \<open>
  The \<open>catch\<close> blocks of the service: an \<open>AppError\<close> is thrown again as it is, anything
  else (\<open>None\<close> is the value \<open>undefined\<close>) is replaced by the wrapping \<open>AppError\<close>.
\<close>

definition rethrow_or_wrap :: "js_error \<Rightarrow> js_error option \<Rightarrow> js_error" where
  "rethrow_or_wrap wrapper thrown =
     (case thrown of Some (AppError m c k) \<Rightarrow> AppError m c k | _ \<Rightarrow> wrapper)"

text \<open>The text filter of the batch path: \<open>texts.map(sanitizeText).filter((text) => text.trim())\<close>.\<close>

definition sanitizedTexts :: "string list \<Rightarrow> string list" where
  "sanitizedTexts texts = filter (\<lambda>t. trim t \<noteq> []) (map sanitizeText texts)"

subsection \<open>The service that calls the provider\<close>

definition generateEmbedding ::
  "EmbeddingConfig \<Rightarrow> 's ai_sdk \<Rightarrow> string \<Rightarrow> 's \<Rightarrow> (js_error + vector) \<times> 's" where
  "generateEmbedding config sdk t s =
     (let sanitizedText = sanitizeText t
      in if trim sanitizedText = [] then (Inl empty_text, s)
         else (let run = retryWithBackoff (embed sdk sanitizedText) (retries config) 1000 s
               in case outcome run of
                    Inr e \<Rightarrow> (Inr e, after run)
                  | Inl thrown \<Rightarrow>
                      (Inl (rethrow_or_wrap embedding_generation_failed thrown), after run)))"

definition generateEmbeddings ::
  "EmbeddingConfig \<Rightarrow> 's ai_sdk \<Rightarrow> string list \<Rightarrow> 's \<Rightarrow> (js_error + vector list) \<times> 's" where
  "generateEmbeddings config sdk texts s =
     (if length texts = 0 then (Inr [], s)
      else if length texts = 1 then
        (case generateEmbedding config sdk (hd texts) s of
           (Inr e, s') \<Rightarrow> (Inr [e], s')
         | (Inl thrown, s') \<Rightarrow>
             (Inl (rethrow_or_wrap batch_embedding_generation_failed (Some thrown)), s'))
      else if sanitizedTexts texts = [] then (Inl no_valid_texts, s)
      else (let run = retryWithBackoff (embedMany sdk (sanitizedTexts texts)) (retries config) 1000 s
            in case outcome run of
                 Inr es \<Rightarrow> (Inr es, after run)
               | Inl thrown \<Rightarrow>
                   (Inl (rethrow_or_wrap batch_embedding_generation_failed thrown), after run)))"

subsection \<open>The service with mock embeddings\<close>

text \<open>
  The second copy of the service in the repository does not call the provider: it
  fills a vector of \<open>dimensions\<close> entries from \<open>Math.random\<close> and normalises it. The
  numbers drawn are not modelled; \<open>mock k\<close> stands for the vector built for the k-th
  text of a call.
\<close>

definition generateEmbedding_mock :: "(nat \<Rightarrow> vector) \<Rightarrow> string \<Rightarrow> js_error + vector" where
  "generateEmbedding_mock mock t =
     (let sanitizedText = sanitizeText t
      in if trim sanitizedText = [] then Inl empty_text else Inr (mock 0))"

definition generateEmbeddings_mock :: "(nat \<Rightarrow> vector) \<Rightarrow> string list \<Rightarrow> js_error + vector list" where
  "generateEmbeddings_mock mock texts =
     (if length texts = 0 then Inr []
      else if length texts = 1 then
        (case generateEmbedding_mock mock (hd texts) of
           Inr e \<Rightarrow> Inr [e]
         | Inl thrown \<Rightarrow> Inl (rethrow_or_wrap batch_embedding_generation_failed (Some thrown)))
      else if sanitizedTexts texts = [] then Inl no_valid_texts
      else Inr (map mock [0 ..< length (sanitizedTexts texts)]))"

text \<open>
  A deterministic provider for examples: it never fails and returns, for each text,
  the one-entry vector holding the length of the text.
\<close>

definition length_sdk :: "unit ai_sdk" where
  "length_sdk = \<lparr> embed = (\<lambda>t s. (Inr [real (length t)], s)),
                  embedMany = (\<lambda>ts s. (Inr (map (\<lambda>t. [real (length t)]) ts), s)) \<rparr>"

definition example_config :: EmbeddingConfig where
  "example_config = \<lparr> model = ''text-embedding-3-small'', dimensions = 1, retries = 3 \<rparr>"

text \<open>
  A provider that refuses its first two calls and answers like \<open>length_sdk\<close> from the
  third on; its state counts the calls made so far.
\<close>

definition flaky_sdk :: "nat ai_sdk" where
  "flaky_sdk =
     \<lparr> embed = (\<lambda>t s. (if s < 2 then Inl (Error ''rate limited'') else Inr [real (length t)],
                         Suc s)),
       embedMany = (\<lambda>ts s. (if s < 2 then Inl (Error ''rate limited'')
                             else Inr (map (\<lambda>t. [real (length t)]) ts), Suc s)) \<rparr>"

section \<open>WeaviateService: searching documents\<close>

record SearchQuery =
  query :: string
  limit :: int
  offset :: int
  similarity_threshold :: real

record SearchResult =
  document :: Document
  score :: real

text \<open>
  An object as the store returns it; \<open>title\<close>, \<open>content\<close> and \<open>metadata\<close> may be absent.
  The store's answer to the query is \<open>None\<close> when \<open>data\<close>, \<open>data.Get\<close> or
  \<open>data.Get["Documents"]\<close> is missing.
\<close>

record stored_item =
  item_id :: string
  item_title :: "string option"
  item_content :: "string option"
  item_metadata :: "DocumentMetadata option"
  item_created_at :: nat
  item_updated_at :: nat

record WeaviateConfig =
  collectionName :: string
  weaviate_retries :: int

text \<open>The value standing for the empty object in \<open>item.metadata || {}\<close>.\<close>

definition no_metadata :: DocumentMetadata where
  "no_metadata = \<lparr> source = [], doc_type = TXT, tags = [], language = [], doc_size = 0,
                    mime_type = [], filePath = None \<rparr>"

text \<open>
  \<open>toLowerCase\<close> on eight-bit code units: the upper-case letters are \<open>A\<close> to \<open>Z\<close> and,
  in the Latin-1 range, \<open>0xC0\<close> to \<open>0xDE\<close> without the multiplication sign \<open>0xD7\<close>; the
  lower-case letter is 32 above. \<open>a.includes(q)\<close> is the substring test.
\<close>

definition lowerChar :: "char \<Rightarrow> char" where
  "lowerChar c =
     (let n = of_char c :: nat
      in if (65 \<le> n \<and> n \<le> 90) \<or> (192 \<le> n \<and> n \<le> 214) \<or> (216 \<le> n \<and> n \<le> 222)
         then char_of (n + 32) else c)"

definition toLowerCase :: "string \<Rightarrow> string" where
  "toLowerCase s = map lowerChar s"

fun includes_str :: "string \<Rightarrow> string \<Rightarrow> bool" where
  "includes_str [] q = (q = [])"
| "includes_str (c # cs) q = (take (length q) (c # cs) = q \<or> includes_str cs q)"

definition toDocument :: "stored_item \<Rightarrow> Document" where
  "toDocument item =
     \<lparr> doc_id = item_id item,
       title = (case item_title item of Some t \<Rightarrow> t | None \<Rightarrow> []),
       content = (case item_content item of Some c \<Rightarrow> c | None \<Rightarrow> []),
       metadata = (case item_metadata item of Some m \<Rightarrow> m | None \<Rightarrow> no_metadata),
       chunks = [], embedding = None,
       created_at = item_created_at item, updated_at = item_updated_at item,
       version = 1, status = COMPLETED \<rparr>"

text \<open>The text-based relevance score of one document.\<close>

definition relevance :: "SearchQuery \<Rightarrow> Document \<Rightarrow> real" where
  "relevance q d =
     (let queryLower = toLowerCase (query q);
          titleMatch = includes_str (toLowerCase (title d)) queryLower;
          contentMatch = includes_str (toLowerCase (content d)) queryLower
      in if titleMatch then 9 / 10 else if contentMatch then 7 / 10 else 3 / 10)"

text \<open>The loop over the returned objects, pushing the results that pass the threshold.\<close>

fun collectResults :: "SearchQuery \<Rightarrow> stored_item list \<Rightarrow> SearchResult list \<Rightarrow> SearchResult list" where
  "collectResults q [] results = results"
| "collectResults q (item # items) results =
     (let d = toDocument item; sc = relevance q d
      in if sc \<ge> similarity_threshold q
         then collectResults q items (results @ [\<lparr> document = d, score = sc \<rparr>])
         else collectResults q items results)"

definition search_failed :: js_error where
  "search_failed = AppError ''Failed to search documents'' 500 ''DOCUMENT_SEARCH_FAILED''"

text \<open>
  \<open>fetch limit offset\<close> is the GraphQL query sent to the store, a call into the outside
  world that is retried with backoff.
\<close>

definition searchDocuments ::
  "WeaviateConfig \<Rightarrow> (int \<Rightarrow> int \<Rightarrow> 's \<Rightarrow> (js_error + stored_item list option) \<times> 's) \<Rightarrow>
   SearchQuery \<Rightarrow> 's \<Rightarrow> (js_error + SearchResult list) \<times> 's" where
  "searchDocuments config fetch q s =
     (let run = retryWithBackoff (fetch (limit q) (offset q)) (weaviate_retries config) 1000 s
      in case outcome run of
           Inl thrown \<Rightarrow> (Inl search_failed, after run)
         | Inr searchResponse \<Rightarrow>
             (case searchResponse of
                None \<Rightarrow> (Inr [], after run)
              | Some items \<Rightarrow> (Inr (collectResults q items []), after run)))"

text \<open>A store with three documents, for examples: it answers every query with all of them.\<close>

definition example_items :: "stored_item list" where
  "example_items =
     [ \<lparr> item_id = ''d1'', item_title = Some ''Release notes'',
         item_content = Some ''Weaviate schema changes'', item_metadata = None,
         item_created_at = 0, item_updated_at = 0 \<rparr>,
       \<lparr> item_id = ''d2'', item_title = Some ''Schema guide'',
         item_content = Some ''How classes are declared'', item_metadata = None,
         item_created_at = 0, item_updated_at = 0 \<rparr>,
       \<lparr> item_id = ''d3'', item_title = Some ''Changelog'',
         item_content = None, item_metadata = None,
         item_created_at = 0, item_updated_at = 0 \<rparr> ]"

definition example_store :: "int \<Rightarrow> int \<Rightarrow> unit \<Rightarrow> (js_error + stored_item list option) \<times> unit" where
  "example_store n k s = (Inr (Some example_items), s)"

text \<open>A store that refuses its first two queries; its state counts the queries.\<close>

definition flaky_store :: "int \<Rightarrow> int \<Rightarrow> nat \<Rightarrow> (js_error + stored_item list option) \<times> nat" where
  "flaky_store n k s =
     (if s < 2 then Inl (Error ''connection refused'') else Inr (Some [hd example_items]), Suc s)"

text \<open>A document whose title is the letter E with acute accent, in upper case.\<close>

definition accented_item :: stored_item where
  "accented_item =
     \<lparr> item_id = ''d4'', item_title = Some [CHR 0xC9], item_content = None,
       item_metadata = None, item_created_at = 0, item_updated_at = 0 \<rparr>"

definition example_weaviate_config :: WeaviateConfig where
  "example_weaviate_config = \<lparr> collectionName = ''Documents'', weaviate_retries = 3 \<rparr>"

section \<open>Utility functions (utils): cosine similarity\<close>

text \<open>
  A JavaScript number is an IEEE 754 double: a finite value (a real that the format
  represents), an infinity, or \<open>NaN\<close>. The sign of a zero is not modelled: in this
  function every zero that is divided by or compared is a sum of squares, a square
  root or a sum that starts from \<open>+0\<close>, and none of these is \<open>-0\<close>.
\<close>

datatype jsnum = Fin real | PosInf | NegInf | NaN

text \<open>
  Rounding to the nearest double, ties to even. \<open>quantum x\<close> is the exponent of the
  unit in the last place at \<open>x\<close> (52 below the binary exponent of \<open>x\<close>, and not below
  \<open>-1074\<close>, where the subnormal numbers start); \<open>round_double x\<close> is the nearest multiple
  of \<open>2 ^ quantum x\<close>; a result beyond the largest double overflows to an infinity.
\<close>

definition round_even :: "real \<Rightarrow> int" where
  "round_even r =
     (let f = \<lfloor>r\<rfloor>; d = r - of_int f
      in if d < 1 / 2 then f else if 1 / 2 < d then f + 1 else if even f then f else f + 1)"

definition scale2 :: "int \<Rightarrow> real" where
  "scale2 e = (if 0 \<le> e then 2 ^ nat e else 1 / 2 ^ nat (- e))"

definition quantum :: "real \<Rightarrow> int" where
  "quantum x = max (\<lfloor>log 2 \<bar>x\<bar>\<rfloor> - 52) (- 1074)"

definition round_double :: "real \<Rightarrow> real" where
  "round_double x =
     (if x = 0 then 0 else of_int (round_even (x / scale2 (quantum x))) * scale2 (quantum x))"

definition max_double :: real where
  "max_double = (2 ^ 53 - 1) * 2 ^ 971"

definition to_double :: "real \<Rightarrow> jsnum" where
  "to_double x =
     (let r = round_double x
      in if max_double < r then PosInf else if r < - max_double then NegInf else Fin r)"

text \<open>
  The arithmetic of doubles: the exact result of finite operands is rounded, and the
  special values follow IEEE 754. \<open>inf_times positive y\<close> is an infinity of the given
  sign times \<open>y\<close>.
\<close>

fun js_add :: "jsnum \<Rightarrow> jsnum \<Rightarrow> jsnum" where
  "js_add NaN y = NaN"
| "js_add x NaN = NaN"
| "js_add PosInf NegInf = NaN"
| "js_add NegInf PosInf = NaN"
| "js_add PosInf y = PosInf"
| "js_add x PosInf = PosInf"
| "js_add NegInf y = NegInf"
| "js_add x NegInf = NegInf"
| "js_add (Fin x) (Fin y) = to_double (x + y)"

fun inf_times :: "bool \<Rightarrow> jsnum \<Rightarrow> jsnum" where
  "inf_times positive NaN = NaN"
| "inf_times positive PosInf = (if positive then PosInf else NegInf)"
| "inf_times positive NegInf = (if positive then NegInf else PosInf)"
| "inf_times positive (Fin y) =
     (if y = 0 then NaN else if (0 < y) = positive then PosInf else NegInf)"

fun js_mul :: "jsnum \<Rightarrow> jsnum \<Rightarrow> jsnum" where
  "js_mul NaN y = NaN"
| "js_mul x NaN = NaN"
| "js_mul PosInf y = inf_times True y"
| "js_mul NegInf y = inf_times False y"
| "js_mul x PosInf = inf_times True x"
| "js_mul x NegInf = inf_times False x"
| "js_mul (Fin x) (Fin y) = to_double (x * y)"

fun js_sqrt :: "jsnum \<Rightarrow> jsnum" where
  "js_sqrt NaN = NaN"
| "js_sqrt NegInf = NaN"
| "js_sqrt PosInf = PosInf"
| "js_sqrt (Fin x) = (if x < 0 then NaN else to_double (sqrt x))"

fun js_div :: "jsnum \<Rightarrow> jsnum \<Rightarrow> jsnum" where
  "js_div NaN y = NaN"
| "js_div x NaN = NaN"
| "js_div PosInf (Fin y) = (if y < 0 then NegInf else PosInf)"
| "js_div NegInf (Fin y) = (if y < 0 then PosInf else NegInf)"
| "js_div (Fin x) (Fin y) =
     (if y = 0 then (if x = 0 then NaN else if 0 < x then PosInf else NegInf)
      else to_double (x / y))"
| "js_div (Fin x) y = Fin 0"
| "js_div x y = NaN"

fun Math_min :: "jsnum \<Rightarrow> jsnum \<Rightarrow> jsnum" where
  "Math_min NaN y = NaN"
| "Math_min x NaN = NaN"
| "Math_min NegInf y = NegInf"
| "Math_min x NegInf = NegInf"
| "Math_min PosInf y = y"
| "Math_min x PosInf = x"
| "Math_min (Fin a) (Fin b) = Fin (min a b)"

fun Math_max :: "jsnum \<Rightarrow> jsnum \<Rightarrow> jsnum" where
  "Math_max NaN y = NaN"
| "Math_max x NaN = NaN"
| "Math_max PosInf y = PosInf"
| "Math_max x PosInf = PosInf"
| "Math_max NegInf y = y"
| "Math_max x NegInf = x"
| "Math_max (Fin a) (Fin b) = Fin (max a b)"

text \<open>A double whose square overflows, for examples.\<close>

definition huge :: real where
  "huge = 2 ^ 600"

text \<open>One round of the \<open>for\<close> loop, on the triple \<open>(dotProduct, normA, normB)\<close>.\<close>

definition cosine_step ::
  "jsnum list \<Rightarrow> jsnum list \<Rightarrow> jsnum \<times> jsnum \<times> jsnum \<Rightarrow> nat \<Rightarrow> jsnum \<times> jsnum \<times> jsnum" where
  "cosine_step vectorA vectorB acc i =
     (case acc of (dotProduct, normA, normB) \<Rightarrow>
        (js_add dotProduct (js_mul (vectorA ! i) (vectorB ! i)),
         js_add normA (js_mul (vectorA ! i) (vectorA ! i)),
         js_add normB (js_mul (vectorB ! i) (vectorB ! i))))"

text \<open>
  The value of \<open>similarity\<close>, for two vectors of the same length: the loop, then
  \<open>dotProduct / (Math.sqrt(normA) * Math.sqrt(normB))\<close>.
\<close>

definition similarity :: "jsnum list \<Rightarrow> jsnum list \<Rightarrow> jsnum" where
  "similarity vectorA vectorB =
     (case foldl (cosine_step vectorA vectorB) (Fin 0, Fin 0, Fin 0) [0 ..< length vectorA] of
        (dotProduct, normA, normB) \<Rightarrow> js_div dotProduct (js_mul (js_sqrt normA) (js_sqrt normB)))"

definition calculateCosineSimilarity :: "jsnum list \<Rightarrow> jsnum list \<Rightarrow> js_error + jsnum" where
  "calculateCosineSimilarity vectorA vectorB =
     (if length vectorA \<noteq> length vectorB then Inl (Error ''Vectors must have the same length'')
      else Inr (Math_max (Fin 0) (Math_min (Fin 1) (similarity vectorA vectorB))))"

section \<open>SelfIndexingService\<close>

subsection \<open>The platform and the world\<close>





text \<open>
  The world outside the service: the documents that \<open>addDocument\<close> has accepted, oldest
  first, and the lines written to the console (the message of each \<open>console.log\<close>,
  \<open>console.warn\<close> or \<open>console.error\<close>, without the error object printed after it).
\<close>

record world =
  store :: "CreateDocumentRequest list"
  console :: "string list"

definition say :: "string \<Rightarrow> world \<Rightarrow> world" where
  "say line w = w \<lparr> console := console w @ [line] \<rparr>"


subsection \<open>Indexing one file\<close>






subsection \<open>Walking a directory\<close>




subsection \<open>The four sweeps\<close>





















subsection \<open>One indexing pass and the single-flight flag\<close>

record service_state =
  isIndexing :: bool
  indexingInterval :: "nat option"

type_synonym sweep = "world \<Rightarrow> (js_error + unit) \<times> world"

text \<open>
  The body of the \<open>try\<close> block of \<open>performIndexing\<close>: the sweeps are awaited one after
  the other, and a sweep that throws ends the block. The list of sweeps is a parameter
  so that the pass can be studied with sweeps that do throw; the service runs it with
  its own four sweeps, \<open>service_sweeps\<close>.
\<close>

fun try_block :: "sweep list \<Rightarrow> world \<Rightarrow> (js_error + unit) \<times> world" where
  "try_block [] w = (Inr (), w)"
| "try_block (sw # rest) w =
     (case sw w of
        (Inl e, w') \<Rightarrow> (Inl e, w')
      | (Inr u, w') \<Rightarrow> try_block rest w')"

definition performIndexing :: "sweep list \<Rightarrow> service_state \<times> world \<Rightarrow> service_state \<times> world" where
  "performIndexing sweeps sw =
     (case sw of (s, w) \<Rightarrow>
        if isIndexing s then (s, say ''Indexing already in progress, skipping...'' w)
        else (let s1 = s \<lparr> isIndexing := True \<rparr>;
                  w1 = say ''Starting indexing process...'' w
              in case try_block sweeps w1 of
                   (Inr u, w2) \<Rightarrow>
                     (s1 \<lparr> isIndexing := False \<rparr>,
                      say ''Indexing process completed successfully'' w2)
                 | (Inl e, w2) \<Rightarrow>
                     (s1 \<lparr> isIndexing := False \<rparr>, say ''Indexing process failed:'' w2)))"

definition triggerIndexing :: "sweep list \<Rightarrow> service_state \<times> world \<Rightarrow> service_state \<times> world" where
  "triggerIndexing sweeps sw =
     (case sw of (s, w) \<Rightarrow> performIndexing sweeps (s, say ''Manual indexing triggered'' w))"

definition getStatus :: "service_state \<Rightarrow> bool" where
  "getStatus s = isIndexing s"


subsection \<open>Passes interleaved with triggers\<close>

text \<open>
  \<open>performIndexing\<close> is asynchronous: it runs up to its first \<open>await\<close> without
  interruption (the test of the flag and its setting), and between two sweeps other
  callbacks may run: a timer tick, a manual trigger, or the continuation of another
  pass. A configuration holds the service state, the passes in flight (each with the
  sweeps it has still to run) and the world. \<open>TimerTick\<close> is the callback of
  \<open>setInterval\<close> (and the first call made by \<open>startAutoIndexing\<close>), \<open>ManualTrigger\<close> is
  a call of \<open>triggerIndexing\<close>, and \<open>Resume i\<close> lets the i-th pass in flight take its
  next step: run its next sweep, or, when none is left or the sweep throws, log and run
  the \<open>finally\<close> block. A sweep is one step here; it reads and writes neither the flag
  nor the list of passes.
\<close>

datatype event = TimerTick | ManualTrigger | Resume nat

record config =
  service :: service_state
  passes :: "sweep list list"
  outside :: world

definition enter_pass :: "sweep list \<Rightarrow> config \<Rightarrow> config" where
  "enter_pass sweeps c =
     (if isIndexing (service c)
      then c \<lparr> outside := say ''Indexing already in progress, skipping...'' (outside c) \<rparr>
      else c \<lparr> service := (service c) \<lparr> isIndexing := True \<rparr>,
               passes := passes c @ [sweeps],
               outside := say ''Starting indexing process...'' (outside c) \<rparr>)"

definition drop_pass :: "nat \<Rightarrow> sweep list list \<Rightarrow> sweep list list" where
  "drop_pass i ps = take i ps @ drop (Suc i) ps"

definition leave_pass :: "nat \<Rightarrow> string \<Rightarrow> world \<Rightarrow> config \<Rightarrow> config" where
  "leave_pass i line w c =
     c \<lparr> service := (service c) \<lparr> isIndexing := False \<rparr>,
         passes := drop_pass i (passes c),
         outside := say line w \<rparr>"

fun step :: "sweep list \<Rightarrow> config \<Rightarrow> event \<Rightarrow> config" where
  "step sweeps c TimerTick = enter_pass sweeps c"
| "step sweeps c ManualTrigger =
     enter_pass sweeps (c \<lparr> outside := say ''Manual indexing triggered'' (outside c) \<rparr>)"
| "step sweeps c (Resume i) =
     (if i < length (passes c) then
        (case passes c ! i of
           [] \<Rightarrow> leave_pass i ''Indexing process completed successfully'' (outside c) c
         | sw # rest \<Rightarrow>
             (case sw (outside c) of
                (Inr u, w') \<Rightarrow> c \<lparr> passes := (passes c)[i := rest], outside := w' \<rparr>
              | (Inl e, w') \<Rightarrow> leave_pass i ''Indexing process failed:'' w' c))
      else c)"

definition run :: "sweep list \<Rightarrow> config \<Rightarrow> event list \<Rightarrow> config" where
  "run sweeps c evs = foldl (step sweeps) c evs"

definition idle :: "world \<Rightarrow> config" where
  "idle w = \<lparr> service = \<lparr> isIndexing = False, indexingInterval = None \<rparr>, passes = [], outside = w \<rparr>"

text \<open>
  The single-flight condition on a configuration: at most one pass is in flight, and
  the flag is set exactly when one is.
\<close>

definition single_flight :: "config \<Rightarrow> bool" where
  "single_flight c =
     (length (passes c) \<le> 1 \<and> (isIndexing (service c) \<longleftrightarrow> passes c \<noteq> []))"

subsection \<open>A platform and sweeps for examples\<close>









text \<open>
  Collaborators of the document service for examples: they never fail, and the
  embedding of a text is the one-entry vector holding its length.
\<close>

definition example_services :: "unit services" where
  "example_services =
     \<lparr> svc_generateEmbedding = (\<lambda>t s. (Inr [real (length t)], s)),
       svc_generateChunkEmbeddings = (\<lambda>ts s. (Inr (map (\<lambda>t. [real (length t)]) ts), s)),
       svc_addDocument = (\<lambda>d s. (Inr (), s)),
       svc_uuid = (\<lambda>k. ''id-'' @ replicate k (CHR ''i'')),
       svc_now = 0 \<rparr>"

definition empty_world :: world where
  "empty_world = \<lparr> store = [], console = [] \<rparr>"

definition note_sweep :: "string \<Rightarrow> sweep" where
  "note_sweep line w = (Inr (), say line w)"

definition failing_sweep :: sweep where
  "failing_sweep w = (Inl (Error ''boom''), say ''about to throw'' w)"

definition example_sweeps :: "sweep list" where
  "example_sweeps = [note_sweep ''documentation'', failing_sweep, note_sweep ''history'']"

section \<open>Chunking: the loop and its exit\<close>

text \<open>
  Once a window has been emitted, the next start is \<open>end - overlap\<close> with
  \<open>end \<le> text.length\<close>. With a positive overlap the next start is therefore again
  below \<open>text.length\<close>, and the loop condition never becomes false.
\<close>

lemma chunk_loop_no_exit_pos_overlap:
  assumes "chunk_loop text chunkSize overlap start acc = Some r"
  shows "\<not> (0 < overlap \<and> start < int (length text))"
proof (rule chunk_loop.raw_induct[OF _ assms])
  fix loop t cs ov s ch res
  assume IH: "\<And>t cs ov s ch res. loop t cs ov s ch = Some res \<Longrightarrow>
        \<not> (0 < ov \<and> s < int (length t))"
    and step: "(if s < int (length t)
      then let end = min (s + cs) (int (length t)); chunk = slice t s end
           in loop t cs ov (end - ov) (ch @ [chunk])
      else Some ch) = Some res"
  show "\<not> (0 < ov \<and> s < int (length t))"
  proof
    assume h: "0 < ov \<and> s < int (length t)"
    with step have "loop t cs ov (min (s + cs) (int (length t)) - ov)
        (ch @ [slice t s (min (s + cs) (int (length t)))]) = Some res"
      by (simp add: Let_def)
    from IH[OF this] h show False by auto
  qed
qed

lemma chunk_loop_diverges_pos_overlap:
  "0 < overlap \<Longrightarrow> start < int (length text) \<Longrightarrow>
   chunk_loop text chunkSize overlap start acc = None"
  by (cases "chunk_loop text chunkSize overlap start acc")
     (auto dest: chunk_loop_no_exit_pos_overlap)

text \<open>
  With \<open>overlap \<ge> chunkSize\<close> the start never moves forward: from a start that is at
  most \<open>0\<close> the next start is at most \<open>0\<close> again.
\<close>

lemma chunk_loop_no_exit_big_overlap:
  assumes "chunk_loop text chunkSize overlap start acc = Some r"
  shows "\<not> (chunkSize \<le> overlap \<and> start \<le> 0 \<and> 0 < length text)"
proof (rule chunk_loop.raw_induct[OF _ assms])
  fix loop t cs ov s ch res
  assume IH: "\<And>t cs ov s ch res. loop t cs ov s ch = Some res \<Longrightarrow>
        \<not> (cs \<le> ov \<and> s \<le> 0 \<and> 0 < length t)"
    and step: "(if s < int (length t)
      then let end = min (s + cs) (int (length t)); chunk = slice t s end
           in loop t cs ov (end - ov) (ch @ [chunk])
      else Some ch) = Some res"
  show "\<not> (cs \<le> ov \<and> s \<le> 0 \<and> 0 < length t)"
  proof
    assume h: "cs \<le> ov \<and> s \<le> 0 \<and> 0 < length t"
    with step have "loop t cs ov (min (s + cs) (int (length t)) - ov)
        (ch @ [slice t s (min (s + cs) (int (length t)))]) = Some res"
      by (simp add: Let_def)
    from IH[OF this] h show False by auto
  qed
qed

lemma chunk_loop_diverges_big_overlap:
  "chunkSize \<le> overlap \<Longrightarrow> start \<le> 0 \<Longrightarrow> 0 < length text \<Longrightarrow>
   chunk_loop text chunkSize overlap start acc = None"
  by (cases "chunk_loop text chunkSize overlap start acc")
     (auto dest: chunk_loop_no_exit_big_overlap)

text \<open>
  Hence \<open>chunkText\<close> returns for a text longer than the chunk size only when the overlap
  is not positive; the first lemma below is the short-text branch, the next two are
  runs of the loop that do exit (overlap \<open>0\<close> and a negative overlap).
\<close>

lemma chunkText_short: "int (length text) \<le> chunkSize \<Longrightarrow> chunkText text chunkSize overlap = Some [text]"
  by (simp add: chunkText_def)

lemma chunkText_zero_overlap_example:
  "chunkText ''abcdefghijklmnopqrstuvwxy'' 10 0 =
     Some [''abcdefghij'', ''klmnopqrst'', ''uvwxy'']"
  by (simp add: chunkText_def chunk_loop.simps slice_def slice_index_def Let_def)

lemma chunkText_negative_overlap_example:
  "chunkText ''abcdefghijklmnopqrstuvwxy'' 10 (- 5) = Some [''abcdefghij'', ''pqrstuvwxy'']"
  by (simp add: chunkText_def chunk_loop.simps slice_def slice_index_def Let_def)

lemma chunkText_never_returns:
  "0 < overlap \<Longrightarrow> chunkSize < int (length text) \<Longrightarrow> 0 < length text \<Longrightarrow>
   chunkText text chunkSize overlap = None"
  by (simp add: chunkText_def chunk_loop_diverges_pos_overlap)

text \<open>
  C1. The claim: for every content longer than \<open>chunkSize\<close> and every configuration with
  \<open>0 < overlap < chunkSize\<close>, \<open>chunkText\<close> terminates and returns a finite, ordered,
  non-empty sequence of chunk texts. On the code the call does not return: for a text
  of 2500 characters with \<open>chunkSize = 1000\<close> and \<open>overlap = 200\<close> the loop reaches
  \<open>start = 2300\<close>, emits the window ending at 2500, and sets \<open>start = 2300\<close> again.
\<close>

theorem chunkText_2500_1000_200_never_returns:
  "chunkText (replicate 2500 (CHR ''a'')) 1000 200 = None"
  by (simp add: chunkText_def chunk_loop_diverges_pos_overlap)

text \<open>
  C2. The claim: chunking a 2500-character document with \<open>chunkSize = 1000\<close> and
  \<open>overlap = 200\<close> through \<open>addDocumentWithChunks\<close> produces exactly 3 chunks with start
  positions 0, 800, 1600 and the last end position 2500. On the code
  \<open>addDocumentWithChunks\<close> never returns for that document, whatever the collaborators
  do, because its call of \<open>chunkText\<close> does not return.
\<close>

theorem addDocumentWithChunks_2500_never_returns:
  "addDocumentWithChunks svc
     \<lparr> req_title = t, req_content = replicate 2500 (CHR ''a''), req_metadata = m \<rparr>
     1000 200 w = None"
  by (simp add: addDocumentWithChunks_def chunkText_def chunk_loop_diverges_pos_overlap)

text \<open>
  C3. The claim: for consecutive chunks \<open>i\<close> and \<open>i + 1\<close> of one document,
  \<open>end_position i - overlap_with_next i = start_position (i + 1)\<close>, and the chunk
  indices are contiguous from 0. The chunk metadata is computed from the index alone.
  For the three windows of the 2500-character document (\<open>chunkSize = 1000\<close>,
  \<open>overlap = 200\<close>) the indices are 0, 1, 2, but the recorded end of chunk 1 is
  \<open>min (2 * 1000) 2500 = 2000\<close>, so \<open>end_position 1 - overlap_with_next 1 = 1800\<close>
  while \<open>start_position 2 = 1600\<close>. The second part is a call that does return (the
  overlap is negative, so the loop exits): 40 characters, \<open>chunkSize = 10\<close>,
  \<open>overlap = - 5\<close> give three chunks with \<open>end_position 1 - overlap_with_next 1 = 25\<close> and
  \<open>start_position 2 = 30\<close>. Each tuple below is \<open>(chunk_index, start_position,
  end_position, overlap_with_next)\<close>.
\<close>

theorem buildChunks_positions_2500_1000_200:
  "map (\<lambda>c. (chunk_index (chunk_metadata c), start_position (chunk_metadata c),
              end_position (chunk_metadata c), overlap_with_next (chunk_metadata c)))
       (buildChunks svc d embs 1000 200 2500 [c0, c1, c2])
     = [(0, 0, 1000, 200), (1, 800, 2000, 200), (2, 1600, 2500, 0)]
   \<and> map_option
        (\<lambda>r. map (\<lambda>c. (chunk_index (chunk_metadata c), start_position (chunk_metadata c),
                         end_position (chunk_metadata c), overlap_with_next (chunk_metadata c)))
                  (chunks (projr (fst r))))
        (addDocumentWithChunks example_services
           \<lparr> req_title = ''notes'', req_content = replicate 40 (CHR ''a''),
             req_metadata = no_metadata \<rparr> 10 (- 5) ())
     = Some [(0, 0, 10, - 5), (1, 15, 20, - 5), (2, 30, 30, 0)]"
  by (simp add: buildChunks_def mkChunk_def upt_rec addDocumentWithChunks_def chunkText_def
        chunk_loop.simps slice_def slice_index_def example_services_def Let_def)

text \<open>
  C4. The claim: a chunking request with \<open>overlap \<ge> chunkSize\<close> (and content longer
  than \<open>chunkSize\<close>) is rejected with a configuration error. \<open>chunkText\<close> has no check
  of its arguments; with \<open>overlap = chunkSize\<close> the start stays at 0, with
  \<open>overlap > chunkSize\<close> it moves backwards, and in both cases the loop never exits:
  the call returns no chunk list and signals no configuration error. (The loop keeps
  appending to \<open>chunks\<close>, so on a machine the run ends when memory or the array
  length is exhausted, which is a crash of the loop, not a rejection of the input.)
\<close>

theorem chunkText_overlap_ge_chunkSize_never_returns:
  "chunkText (replicate 2500 (CHR ''a'')) 1000 1000 = None \<and>
   chunkText (replicate 2500 (CHR ''a'')) 1000 1200 = None"
  by (simp add: chunkText_def chunk_loop_diverges_big_overlap)

section \<open>Retry with backoff\<close>

lemma retry_loop_all_fail:
  "\<forall>s. isl (fst (fn s)) \<Longrightarrow> 0 \<le> attempt \<Longrightarrow> attempt \<le> maxRetries \<Longrightarrow>
    retry_loop fn maxRetries baseDelay attempt lastError s ws n =
      \<lparr> outcome = Inl (Some (projl (fst (fn (after_calls fn (nat (maxRetries - attempt)) s))))),
        after = after_calls fn (Suc (nat (maxRetries - attempt))) s,
        delays = ws @ map (\<lambda>k. baseDelay * 2 ^ k) [nat attempt ..< nat maxRetries],
        invocations = n + Suc (nat (maxRetries - attempt)) \<rparr>"
proof (induction fn maxRetries baseDelay attempt lastError s ws n rule: retry_loop.induct)
  case (1 fn maxRetries baseDelay attempt lastError s ws n)
  note fail = "1.prems"(1)
  obtain e s' where fs: "fn s = (Inl e, s')"
    using fail by (cases "fn s"; cases "fst (fn s)") (auto simp: isl_def dest: spec[of _ s])
  show ?case
  proof (cases "attempt = maxRetries")
    case True
    with fs show ?thesis by (subst retry_loop.simps) simp
  next
    case False
    with "1.prems" have lt: "attempt < maxRetries" by simp
    have k: "nat (maxRetries - attempt) = Suc (nat (maxRetries - (attempt + 1)))"
      using lt "1.prems" by simp
    have u: "[nat attempt ..< nat maxRetries] = nat attempt # [nat (attempt + 1) ..< nat maxRetries]"
      using lt "1.prems" by (simp add: upt_conv_Cons nat_add_distrib)
    have IH: "retry_loop fn maxRetries baseDelay (attempt + 1) (Some e) s'
          (ws @ [baseDelay * 2 ^ nat attempt]) (Suc n) =
      \<lparr> outcome = Inl (Some (projl (fst (fn (after_calls fn (nat (maxRetries - (attempt + 1))) s'))))),
        after = after_calls fn (Suc (nat (maxRetries - (attempt + 1)))) s',
        delays = (ws @ [baseDelay * 2 ^ nat attempt]) @
                 map (\<lambda>k. baseDelay * 2 ^ k) [nat (attempt + 1) ..< nat maxRetries],
        invocations = Suc n + Suc (nat (maxRetries - (attempt + 1))) \<rparr>"
      using "1.IH"[OF _ fs[symmetric] _ False fail] lt "1.prems" by simp
    have sn: "snd (fn s) = s'" using fs by simp
    show ?thesis
      using False lt
      by (subst retry_loop.simps) (simp add: k u fs sn IH)
  qed
qed

text \<open>
  A run that returns a value returns the value of one invocation of the operation, and
  leaves the state that invocation left; and when the invocations \<open>0 .. k - 1\<close> fail
  and invocation \<open>k\<close> succeeds, with \<open>k \<le> maxRetries\<close>, the run returns its value.
\<close>

lemma retry_loop_success_origin:
  "outcome (retry_loop fn maxRetries baseDelay attempt lastError s ws n) = Inr v \<Longrightarrow>
   \<exists>k. fn (after_calls fn k s)
         = (Inr v, after (retry_loop fn maxRetries baseDelay attempt lastError s ws n))"
proof (induction fn maxRetries baseDelay attempt lastError s ws n rule: retry_loop.induct)
  case (1 fn maxRetries baseDelay attempt lastError s ws n)
  show ?case
  proof (cases "attempt \<le> maxRetries")
    case False
    with "1.prems" show ?thesis by (subst (asm) retry_loop.simps) simp
  next
    case True
    obtain r s' where fs: "fn s = (r, s')" by (cases "fn s")
    show ?thesis
    proof (cases r)
      case (Inr v')
      with True fs "1.prems" have "v' = v"
        by (subst (asm) retry_loop.simps) simp
      with True fs Inr have "fn (after_calls fn 0 s)
          = (Inr v, after (retry_loop fn maxRetries baseDelay attempt lastError s ws n))"
        by (subst retry_loop.simps) simp
      then show ?thesis ..
    next
      case (Inl e)
      show ?thesis
      proof (cases "attempt = maxRetries")
        case eq: True
        with True fs Inl "1.prems" show ?thesis by (subst (asm) retry_loop.simps) simp
      next
        case ne: False
        have unfold: "retry_loop fn maxRetries baseDelay attempt lastError s ws n
            = retry_loop fn maxRetries baseDelay (attempt + 1) (Some e) s'
                (ws @ [baseDelay * 2 ^ nat attempt]) (Suc n)"
          using True fs Inl ne by (subst retry_loop.simps) simp
        have fs': "fn s = (Inl e, s')" using fs Inl by simp
        from "1.IH"[OF True fs'[symmetric] refl ne] "1.prems" unfold
        obtain k where "fn (after_calls fn k s')
            = (Inr v, after (retry_loop fn maxRetries baseDelay attempt lastError s ws n))"
          by auto
        with fs have "fn (after_calls fn (Suc k) s)
            = (Inr v, after (retry_loop fn maxRetries baseDelay attempt lastError s ws n))"
          by simp
        then show ?thesis ..
      qed
    qed
  qed
qed

lemma retryWithBackoff_success_origin:
  "outcome (retryWithBackoff fn maxRetries baseDelay s) = Inr v \<Longrightarrow>
   \<exists>k. fn (after_calls fn k s) = (Inr v, after (retryWithBackoff fn maxRetries baseDelay s))"
  unfolding retryWithBackoff_def by (rule retry_loop_success_origin)

lemma retry_loop_later_success:
  "(\<forall>j<k. isl (fst (fn (after_calls fn j s)))) \<Longrightarrow>
   fn (after_calls fn k s) = (Inr v, s') \<Longrightarrow> 0 \<le> attempt \<Longrightarrow> attempt + int k \<le> maxRetries \<Longrightarrow>
   retry_loop fn maxRetries baseDelay attempt lastError s ws n =
     \<lparr> outcome = Inr v, after = s',
       delays = ws @ map (\<lambda>i. baseDelay * 2 ^ i) [nat attempt ..< nat attempt + k],
       invocations = n + Suc k \<rparr>"
proof (induction k arbitrary: attempt lastError s ws n)
  case 0
  then show ?case by (subst retry_loop.simps) simp
next
  case (Suc k)
  from Suc.prems(1) have "isl (fst (fn (after_calls fn 0 s)))" by blast
  then obtain e s1 where fs: "fn s = (Inl e, s1)"
    by (cases "fn s"; cases "fst (fn s)") (auto simp: isl_def)
  have later: "\<forall>j<k. isl (fst (fn (after_calls fn j s1)))"
  proof (intro allI impI)
    fix j assume "j < k"
    then have "Suc j < Suc k" by simp
    with Suc.prems(1) have "isl (fst (fn (after_calls fn (Suc j) s)))" by blast
    with fs show "isl (fst (fn (after_calls fn j s1)))" by simp
  qed
  have succ: "fn (after_calls fn k s1) = (Inr v, s')" using Suc.prems(2) fs by simp
  have u: "[nat attempt ..< nat attempt + Suc k] = nat attempt # [nat (attempt + 1) ..< nat (attempt + 1) + k]"
    using Suc.prems(3) by (simp add: upt_conv_Cons nat_add_distrib)
  from Suc.IH[OF later succ, of "attempt + 1" "Some e" "ws @ [baseDelay * 2 ^ nat attempt]" "Suc n"]
    Suc.prems(3,4)
  have IH: "retry_loop fn maxRetries baseDelay (attempt + 1) (Some e) s1
        (ws @ [baseDelay * 2 ^ nat attempt]) (Suc n) =
     \<lparr> outcome = Inr v, after = s',
       delays = (ws @ [baseDelay * 2 ^ nat attempt]) @
                map (\<lambda>i. baseDelay * 2 ^ i) [nat (attempt + 1) ..< nat (attempt + 1) + k],
       invocations = Suc n + Suc k \<rparr>"
    by simp
  from Suc.prems(3,4) have "attempt \<le> maxRetries" "attempt \<noteq> maxRetries" by simp_all
  then show ?case
    by (subst u, subst retry_loop.simps) (simp add: fs IH)
qed

lemma retryWithBackoff_later_success:
  "(\<forall>j<k. isl (fst (fn (after_calls fn j s)))) \<Longrightarrow>
   fn (after_calls fn k s) = (Inr v, s') \<Longrightarrow> int k \<le> maxRetries \<Longrightarrow>
   retryWithBackoff fn maxRetries baseDelay s =
     \<lparr> outcome = Inr v, after = s',
       delays = map (\<lambda>i. baseDelay * 2 ^ i) [0 ..< k],
       invocations = Suc k \<rparr>"
  using retry_loop_later_success[of k fn s v s' 0 maxRetries baseDelay None "[]" 0]
  by (simp add: retryWithBackoff_def)

text \<open>A run that succeeds at the third invocation: two delays, no error.\<close>

lemma retryWithBackoff_third_attempt_example:
  "retryWithBackoff (\<lambda>s::nat. (if s < 2 then Inl ''down'' else Inr s, Suc s)) 3 1000 0
     = \<lparr> outcome = Inr 2, after = 3, delays = [1000, 2000], invocations = 3 \<rparr>"
  by (simp add: retryWithBackoff_def retry_loop.simps)

text \<open>
  C6. The claim: for an operation that fails on every invocation,
  \<open>retryWithBackoff fn maxRetries baseDelay\<close> invokes it up to \<open>maxRetries\<close> times, waits
  \<open>baseDelay * 2 ^ attempt\<close> after each failed attempt, and then raises the original
  error. The loop runs \<open>attempt = 0 .. maxRetries\<close> inclusive and throws before waiting
  when \<open>attempt = maxRetries\<close>: with \<open>maxRetries = 3\<close> an always-failing operation is
  invoked 4 times and only the first 3 failures are followed by a delay.
\<close>

theorem retryWithBackoff_invocations_counterexample:
  "\<not> invocations (retryWithBackoff (\<lambda>s::unit. (Inl ''down'' :: string + unit, s)) 3 1000 ()) \<le> 3
   \<and> delays (retryWithBackoff (\<lambda>s::unit. (Inl ''down'' :: string + unit, s)) 3 1000 ())
       = [1000, 2000, 4000]"
  by (simp add: retryWithBackoff_def retry_loop.simps)

text \<open>
  C6, as amended. For an operation that fails on every invocation and
  \<open>maxRetries \<ge> 0\<close>: the operation is invoked exactly \<open>maxRetries + 1\<close> times (attempts
  \<open>0 .. maxRetries\<close>); the delays waited are \<open>baseDelay * 2 ^ attempt\<close> for the attempts
  \<open>0 .. maxRetries - 1\<close>, in this order, so none follows the last attempt; and the error
  raised to the caller is the error of the last attempt, as the operation threw it.
\<close>

theorem retryWithBackoff_all_fail:
  assumes "\<forall>s. isl (fst (fn s))" and "0 \<le> maxRetries"
  shows "invocations (retryWithBackoff fn maxRetries baseDelay s) = nat maxRetries + 1
       \<and> delays (retryWithBackoff fn maxRetries baseDelay s)
           = map (\<lambda>attempt. baseDelay * 2 ^ attempt) [0 ..< nat maxRetries]
       \<and> outcome (retryWithBackoff fn maxRetries baseDelay s)
           = Inl (Some (projl (fst (fn (after_calls fn (nat maxRetries) s)))))"
  using assms by (simp add: retryWithBackoff_def retry_loop_all_fail)

theorem retryWithBackoff_all_fail_witness:
  "invocations (retryWithBackoff (\<lambda>s::nat. (Inl s :: nat + unit, Suc s)) 3 1000 0) = 4
   \<and> delays (retryWithBackoff (\<lambda>s::nat. (Inl s :: nat + unit, Suc s)) 3 1000 0)
       = [1000, 2000, 4000]
   \<and> outcome (retryWithBackoff (\<lambda>s::nat. (Inl s :: nat + unit, Suc s)) 3 1000 0)
       = Inl (Some 3)"
  using retryWithBackoff_all_fail[of "\<lambda>s::nat. (Inl s :: nat + unit, Suc s)" 3 1000 0]
  by (simp add: upt_rec numeral_eq_Suc)

section \<open>Batch embedding\<close>

lemmas sanitize_eval =
  sanitizeText_def trim_def keptBySanitize_def isWordChar_def isWhitespace_def

lemma sanitizeText_examples:
  "sanitizeText ''valid'' = ''valid''"
  "sanitizeText '''' = ''''"
  "sanitizeText ''also valid'' = ''also valid''"
  "sanitizeText ''  '' = ''''"
  "sanitizeText ('' Hello,  w@rld! '' @ [CHR 0x0A]) = ''Hello, wrld!''"
  by (simp_all add: sanitize_eval)

text \<open>The filter keeps the texts in their input order.\<close>

lemma sanitizedTexts_order:
  "sanitizedTexts texts = map sanitizeText (filter (\<lambda>t. trim (sanitizeText t) \<noteq> []) texts)"
  by (simp add: sanitizedTexts_def filter_map comp_def)

lemma retryWithBackoff_first_success:
  "fn s = (Inr v, s') \<Longrightarrow> 0 \<le> maxRetries \<Longrightarrow>
   retryWithBackoff fn maxRetries baseDelay s =
     \<lparr> outcome = Inr v, after = s', delays = [], invocations = 1 \<rparr>"
  by (simp add: retryWithBackoff_def retry_loop.simps)

lemma generateEmbeddings_empty:
  "generateEmbeddings config sdk [] s = (Inr [], s)"
  "generateEmbeddings_mock mock [] = Inr []"
  by (simp_all add: generateEmbeddings_def generateEmbeddings_mock_def)

lemma generateEmbeddings_none_valid:
  "2 \<le> length texts \<Longrightarrow> sanitizedTexts texts = [] \<Longrightarrow>
   generateEmbeddings config sdk texts s = (Inl no_valid_texts, s) \<and>
   generateEmbeddings_mock mock texts = Inl no_valid_texts"
  by (cases texts) (auto simp: generateEmbeddings_def generateEmbeddings_mock_def)

lemma generateEmbeddings_single_dropped:
  "length texts = 1 \<Longrightarrow> sanitizedTexts texts = [] \<Longrightarrow>
   generateEmbeddings config sdk texts s = (Inl empty_text, s) \<and>
   generateEmbeddings_mock mock texts = Inl empty_text"
  by (cases texts)
     (auto simp: generateEmbeddings_def generateEmbedding_def generateEmbeddings_mock_def
        generateEmbedding_mock_def sanitizedTexts_def rethrow_or_wrap_def empty_text_def
        split: if_splits)

lemma generateEmbedding_origin:
  assumes a: "generateEmbedding config sdk t s = (Inr v, s')"
  shows "trim (sanitizeText t) \<noteq> []
         \<and> (\<exists>k. embed sdk (sanitizeText t) (after_calls (embed sdk (sanitizeText t)) k s)
                  = (Inr v, s'))"
proof -
  let ?run = "retryWithBackoff (embed sdk (sanitizeText t)) (retries config) 1000 s"
  from a have ne: "trim (sanitizeText t) \<noteq> []"
    by (auto simp: generateEmbedding_def Let_def)
  with a have o: "outcome ?run = Inr v" and s': "after ?run = s'"
    by (auto simp: generateEmbedding_def Let_def split: sum.splits)
  from retryWithBackoff_success_origin[OF o] s' ne show ?thesis by auto
qed

lemma generateEmbedding_later_success:
  assumes "trim (sanitizeText t) \<noteq> []"
    and "\<forall>j<k. isl (fst (embed sdk (sanitizeText t)
                             (after_calls (embed sdk (sanitizeText t)) j s)))"
    and "embed sdk (sanitizeText t) (after_calls (embed sdk (sanitizeText t)) k s) = (Inr v, s')"
    and "int k \<le> retries config"
  shows "generateEmbedding config sdk t s = (Inr v, s')"
  using retryWithBackoff_later_success[OF assms(2,3,4), of 1000] assms(1)
  by (simp add: generateEmbedding_def Let_def)

lemma sanitizedTexts_single:
  "sanitizedTexts [t] = (if trim (sanitizeText t) = [] then [] else [sanitizeText t])"
  by (simp add: sanitizedTexts_def)

lemma generateEmbeddings_single_origin:
  assumes l: "length texts = 1"
    and a: "generateEmbeddings config sdk texts s = (Inr vs, s')"
  shows "\<exists>v k. vs = [v] \<and> sanitizedTexts texts = [sanitizeText (hd texts)]
           \<and> embed sdk (sanitizeText (hd texts))
                (after_calls (embed sdk (sanitizeText (hd texts))) k s) = (Inr v, s')"
proof -
  from l obtain t where t: "texts = [t]" by (cases texts) auto
  from a t obtain v where v: "generateEmbedding config sdk t s = (Inr v, s')" and vs: "vs = [v]"
    by (auto simp: generateEmbeddings_def split: prod.splits sum.splits)
  from generateEmbedding_origin[OF v] t vs show ?thesis
    by (auto simp: sanitizedTexts_single)
qed

lemma generateEmbeddings_many_origin:
  assumes l: "2 \<le> length texts"
    and a: "generateEmbeddings config sdk texts s = (Inr vs, s')"
  shows "sanitizedTexts texts \<noteq> []
         \<and> (\<exists>k. embedMany sdk (sanitizedTexts texts)
                  (after_calls (embedMany sdk (sanitizedTexts texts)) k s) = (Inr vs, s'))"
proof -
  let ?run = "retryWithBackoff (embedMany sdk (sanitizedTexts texts)) (retries config) 1000 s"
  from l a have ne: "sanitizedTexts texts \<noteq> []"
    by (auto simp: generateEmbeddings_def Let_def split: if_splits)
  with l a have o: "outcome ?run = Inr vs" and s': "after ?run = s'"
    by (auto simp: generateEmbeddings_def Let_def split: sum.splits if_splits)
  from retryWithBackoff_success_origin[OF o] s' ne show ?thesis by auto
qed

lemma generateEmbeddings_count:
  assumes provider: "\<forall>vals s0 ws s1. embedMany sdk vals s0 = (Inr ws, s1) \<longrightarrow> length ws = length vals"
    and a: "generateEmbeddings config sdk texts s = (Inr vs, s')"
  shows "length vs = length (sanitizedTexts texts)"
proof -
  consider "texts = []" | "length texts = 1" | "2 \<le> length texts"
    by (cases texts) (auto simp: Suc_le_eq)
  then show ?thesis
  proof cases
    case 1
    with a show ?thesis by (simp add: generateEmbeddings_def sanitizedTexts_def)
  next
    case 2
    from generateEmbeddings_single_origin[OF 2 a] show ?thesis by auto
  next
    case 3
    from generateEmbeddings_many_origin[OF 3 a] obtain k where
      "embedMany sdk (sanitizedTexts texts)
         (after_calls (embedMany sdk (sanitizedTexts texts)) k s) = (Inr vs, s')"
      by blast
    with provider show ?thesis by blast
  qed
qed

lemma generateEmbeddings_many_later_success:
  assumes "2 \<le> length texts" and "sanitizedTexts texts \<noteq> []"
    and "\<forall>j<k. isl (fst (embedMany sdk (sanitizedTexts texts)
                             (after_calls (embedMany sdk (sanitizedTexts texts)) j s)))"
    and "embedMany sdk (sanitizedTexts texts)
           (after_calls (embedMany sdk (sanitizedTexts texts)) k s) = (Inr vs, s')"
    and "int k \<le> retries config"
  shows "generateEmbeddings config sdk texts s = (Inr vs, s')"
  using retryWithBackoff_later_success[OF assms(3,4,5), of 1000] assms(1,2)
  by (cases texts) (auto simp: generateEmbeddings_def Let_def)

lemma generateEmbeddings_single_later_success:
  assumes l: "length texts = 1" and ne: "sanitizedTexts texts \<noteq> []"
    and f: "\<forall>j<k. isl (fst (embed sdk (sanitizeText (hd texts))
                             (after_calls (embed sdk (sanitizeText (hd texts))) j s)))"
    and e: "embed sdk (sanitizeText (hd texts))
           (after_calls (embed sdk (sanitizeText (hd texts))) k s) = (Inr v, s')"
    and r: "int k \<le> retries config"
  shows "generateEmbeddings config sdk texts s = (Inr [v], s')"
proof -
  from l obtain t where t: "texts = [t]" by (cases texts) auto
  with ne have n: "trim (sanitizeText t) \<noteq> []" by (simp add: sanitizedTexts_single split: if_splits)
  from f e t have f': "\<forall>j<k. isl (fst (embed sdk (sanitizeText t)
                             (after_calls (embed sdk (sanitizeText t)) j s)))"
    and e': "embed sdk (sanitizeText t) (after_calls (embed sdk (sanitizeText t)) k s) = (Inr v, s')"
    by simp_all
  from generateEmbedding_later_success[OF n f' e' r] t show ?thesis
    by (simp add: generateEmbeddings_def)
qed

lemma generateEmbeddings_mock_valid:
  "sanitizedTexts texts \<noteq> [] \<Longrightarrow>
   generateEmbeddings_mock mock texts = Inr (map mock [0 ..< length (sanitizedTexts texts)])"
proof (cases texts)
  case Nil
  assume "sanitizedTexts texts \<noteq> []"
  with Nil show ?thesis by (simp add: sanitizedTexts_def)
next
  case (Cons t ts)
  assume ne: "sanitizedTexts texts \<noteq> []"
  show ?thesis
  proof (cases ts)
    case Nil
    with Cons ne show ?thesis
      by (simp add: generateEmbeddings_mock_def generateEmbedding_mock_def
            sanitizedTexts_single split: if_splits)
  next
    case (Cons u us)
    with \<open>texts = t # ts\<close> ne show ?thesis
      by (simp add: generateEmbeddings_mock_def)
  qed
qed

text \<open>
  C7. The claim: batch embedding returns one vector per input that remains non-empty
  after normalization, in input order (two vectors for \<open>["valid", "", "also valid"]\<close>);
  an empty array gives an empty array; and if all inputs are dropped it signals
  \<open>NoValidInput\<close>. An array of one text takes the single-text path before any
  filtering, so when its only text is dropped the error is \<open>EMPTY_TEXT\<close>, not
  \<open>NO_VALID_TEXTS\<close>, in both copies of the service.
\<close>

theorem generateEmbeddings_single_blank_counterexample:
  "sanitizedTexts [''''] = []
   \<and> generateEmbeddings example_config length_sdk [''''] () = (Inl empty_text, ())
   \<and> generateEmbeddings_mock (\<lambda>k. [real k]) [''''] = Inl empty_text
   \<and> empty_text \<noteq> no_valid_texts"
  by (simp add: generateEmbeddings_def generateEmbedding_def generateEmbeddings_mock_def
        generateEmbedding_mock_def sanitizedTexts_def sanitizeText_examples
        rethrow_or_wrap_def empty_text_def no_valid_texts_def trim_def)

text \<open>
  C7, as amended. The texts that remain are the normalized inputs whose trimmed form is
  not empty, in input order. An empty array gives an empty array without error. Every
  array of vectors that the provider-backed service returns is the answer of one call of
  the provider: for two or more texts, of \<open>embedMany\<close> on the remaining texts, returned as
  it is, so one vector per remaining text whenever the provider answers with one vector
  per value; for one text, of \<open>embed\<close> on its normalized form. Whenever the provider
  answers at some attempt within the retry budget, the attempts before it having failed,
  the service returns that answer. The mock service returns exactly one vector per
  remaining text. If no text of an array of two or more remains, both services signal
  \<open>NO_VALID_TEXTS\<close>; if the only text of an array of one is dropped, both signal
  \<open>EMPTY_TEXT\<close>.
\<close>

theorem generateEmbeddings_batch:
  "generateEmbeddings config sdk [] s = (Inr [], s)
   \<and> generateEmbeddings_mock mock [] = Inr []
   \<and> sanitizedTexts texts
        = map sanitizeText (filter (\<lambda>t. trim (sanitizeText t) \<noteq> []) texts)
   \<and> (sanitizedTexts texts \<noteq> [] \<longrightarrow>
        generateEmbeddings_mock mock texts = Inr (map mock [0 ..< length (sanitizedTexts texts)]))
   \<and> (\<forall>vs s'. generateEmbeddings config sdk texts s = (Inr vs, s') \<longrightarrow>
        (length texts = 1 \<longrightarrow>
           (\<exists>v k. vs = [v] \<and> sanitizedTexts texts = [sanitizeText (hd texts)]
              \<and> embed sdk (sanitizeText (hd texts))
                   (after_calls (embed sdk (sanitizeText (hd texts))) k s) = (Inr v, s')))
        \<and> (2 \<le> length texts \<longrightarrow>
             sanitizedTexts texts \<noteq> []
             \<and> (\<exists>k. embedMany sdk (sanitizedTexts texts)
                      (after_calls (embedMany sdk (sanitizedTexts texts)) k s) = (Inr vs, s')))
        \<and> ((\<forall>vals s0 ws s1. embedMany sdk vals s0 = (Inr ws, s1) \<longrightarrow> length ws = length vals)
             \<longrightarrow> length vs = length (sanitizedTexts texts)))
   \<and> (\<forall>k vs s'.
         2 \<le> length texts \<and> sanitizedTexts texts \<noteq> [] \<and> int k \<le> retries config
         \<and> (\<forall>j<k. isl (fst (embedMany sdk (sanitizedTexts texts)
                               (after_calls (embedMany sdk (sanitizedTexts texts)) j s))))
         \<and> embedMany sdk (sanitizedTexts texts)
             (after_calls (embedMany sdk (sanitizedTexts texts)) k s) = (Inr vs, s')
       \<longrightarrow> generateEmbeddings config sdk texts s = (Inr vs, s'))
   \<and> (\<forall>k v s'.
         length texts = 1 \<and> sanitizedTexts texts \<noteq> [] \<and> int k \<le> retries config
         \<and> (\<forall>j<k. isl (fst (embed sdk (sanitizeText (hd texts))
                               (after_calls (embed sdk (sanitizeText (hd texts))) j s))))
         \<and> embed sdk (sanitizeText (hd texts))
             (after_calls (embed sdk (sanitizeText (hd texts))) k s) = (Inr v, s')
       \<longrightarrow> generateEmbeddings config sdk texts s = (Inr [v], s'))
   \<and> (2 \<le> length texts \<and> sanitizedTexts texts = [] \<longrightarrow>
        generateEmbeddings config sdk texts s = (Inl no_valid_texts, s)
        \<and> generateEmbeddings_mock mock texts = Inl no_valid_texts)
   \<and> (length texts = 1 \<and> sanitizedTexts texts = [] \<longrightarrow>
        generateEmbeddings config sdk texts s = (Inl empty_text, s)
        \<and> generateEmbeddings_mock mock texts = Inl empty_text)"
proof (intro conjI allI impI)
  show "generateEmbeddings config sdk [] s = (Inr [], s)"
    "generateEmbeddings_mock mock [] = Inr []"
    by (rule generateEmbeddings_empty)+
next
  show "sanitizedTexts texts
          = map sanitizeText (filter (\<lambda>t. trim (sanitizeText t) \<noteq> []) texts)"
    by (rule sanitizedTexts_order)
next
  assume "sanitizedTexts texts \<noteq> []"
  then show "generateEmbeddings_mock mock texts
               = Inr (map mock [0 ..< length (sanitizedTexts texts)])"
    by (rule generateEmbeddings_mock_valid)
next
  fix vs s'
  assume a: "generateEmbeddings config sdk texts s = (Inr vs, s')" and l: "length texts = 1"
  from generateEmbeddings_single_origin[OF l a]
  show "\<exists>v k. vs = [v] \<and> sanitizedTexts texts = [sanitizeText (hd texts)]
              \<and> embed sdk (sanitizeText (hd texts))
                   (after_calls (embed sdk (sanitizeText (hd texts))) k s) = (Inr v, s')" .
next
  fix vs s'
  assume a: "generateEmbeddings config sdk texts s = (Inr vs, s')" and l: "2 \<le> length texts"
  from generateEmbeddings_many_origin[OF l a]
  show "sanitizedTexts texts \<noteq> []"
    "\<exists>k. embedMany sdk (sanitizedTexts texts)
           (after_calls (embedMany sdk (sanitizedTexts texts)) k s) = (Inr vs, s')"
    by simp_all
next
  fix vs s'
  assume a: "generateEmbeddings config sdk texts s = (Inr vs, s')"
    and p: "\<forall>vals s0 ws s1. embedMany sdk vals s0 = (Inr ws, s1) \<longrightarrow> length ws = length vals"
  from generateEmbeddings_count[OF p a] show "length vs = length (sanitizedTexts texts)" .
next
  fix k vs s'
  assume h: "2 \<le> length texts \<and> sanitizedTexts texts \<noteq> [] \<and> int k \<le> retries config
         \<and> (\<forall>j<k. isl (fst (embedMany sdk (sanitizedTexts texts)
                               (after_calls (embedMany sdk (sanitizedTexts texts)) j s))))
         \<and> embedMany sdk (sanitizedTexts texts)
             (after_calls (embedMany sdk (sanitizedTexts texts)) k s) = (Inr vs, s')"
  then have h1: "2 \<le> length texts" and h2: "sanitizedTexts texts \<noteq> []"
    and h3: "\<forall>j<k. isl (fst (embedMany sdk (sanitizedTexts texts)
                               (after_calls (embedMany sdk (sanitizedTexts texts)) j s)))"
    and h4: "embedMany sdk (sanitizedTexts texts)
             (after_calls (embedMany sdk (sanitizedTexts texts)) k s) = (Inr vs, s')"
    and h5: "int k \<le> retries config"
    by simp_all
  show "generateEmbeddings config sdk texts s = (Inr vs, s')"
    by (rule generateEmbeddings_many_later_success[OF h1 h2 h3 h4 h5])
next
  fix k v s'
  assume h: "length texts = 1 \<and> sanitizedTexts texts \<noteq> [] \<and> int k \<le> retries config
         \<and> (\<forall>j<k. isl (fst (embed sdk (sanitizeText (hd texts))
                               (after_calls (embed sdk (sanitizeText (hd texts))) j s))))
         \<and> embed sdk (sanitizeText (hd texts))
             (after_calls (embed sdk (sanitizeText (hd texts))) k s) = (Inr v, s')"
  then have h1: "length texts = 1" and h2: "sanitizedTexts texts \<noteq> []"
    and h3: "\<forall>j<k. isl (fst (embed sdk (sanitizeText (hd texts))
                               (after_calls (embed sdk (sanitizeText (hd texts))) j s)))"
    and h4: "embed sdk (sanitizeText (hd texts))
             (after_calls (embed sdk (sanitizeText (hd texts))) k s) = (Inr v, s')"
    and h5: "int k \<le> retries config"
    by simp_all
  show "generateEmbeddings config sdk texts s = (Inr [v], s')"
    by (rule generateEmbeddings_single_later_success[OF h1 h2 h3 h4 h5])
next
  assume "2 \<le> length texts \<and> sanitizedTexts texts = []"
  then show "generateEmbeddings config sdk texts s = (Inl no_valid_texts, s)"
    "generateEmbeddings_mock mock texts = Inl no_valid_texts"
    by (simp_all add: generateEmbeddings_none_valid)
next
  assume "length texts = 1 \<and> sanitizedTexts texts = []"
  then show "generateEmbeddings config sdk texts s = (Inl empty_text, s)"
    "generateEmbeddings_mock mock texts = Inl empty_text"
    by (simp_all add: generateEmbeddings_single_dropped)
qed

lemma flaky_sdk_calls:
  "after_calls (embedMany flaky_sdk ts) k s = s + k"
  "after_calls (embed flaky_sdk t) k s = s + k"
  by (induction k arbitrary: s) (simp_all add: flaky_sdk_def)

lemma sanitizedTexts_examples:
  "sanitizedTexts [''valid'', '''', ''also valid''] = [''valid'', ''also valid'']"
  "sanitizedTexts ['''', ''  ''] = []"
  "sanitizedTexts [''  ''] = []"
  "sanitizedTexts [''valid''] = [''valid'']"
  by (simp_all add: sanitizedTexts_def sanitizeText_examples trim_def isWhitespace_def)

theorem generateEmbeddings_batch_witness:
  "generateEmbeddings example_config length_sdk [''valid'', '''', ''also valid''] ()
     = (Inr [ [5], [10] ], ())
   \<and> generateEmbeddings example_config flaky_sdk [''valid'', '''', ''also valid''] 0
     = (Inr [ [5], [10] ], 3)
   \<and> generateEmbeddings example_config flaky_sdk [''valid''] 0 = (Inr [ [5] ], 3)
   \<and> length [ [5], [10 :: real] ] = length (sanitizedTexts [''valid'', '''', ''also valid''])
   \<and> generateEmbeddings_mock (\<lambda>k. [real k]) [''valid'', '''', ''also valid''] = Inr [ [0], [1] ]
   \<and> generateEmbeddings_mock (\<lambda>k. [real k]) [''valid''] = Inr [ [0] ]
   \<and> generateEmbeddings example_config length_sdk ['''', ''  ''] () = (Inl no_valid_texts, ())
   \<and> generateEmbeddings_mock (\<lambda>k. [real k]) ['''', ''  ''] = Inl no_valid_texts
   \<and> generateEmbeddings example_config length_sdk [''  ''] () = (Inl empty_text, ())"
proof -
  let ?three = "[''valid'', '''', ''also valid'']"
  let ?mock = "\<lambda>k :: nat. [real k]"
  have r: "int 0 \<le> retries example_config" "int 2 \<le> retries example_config"
    by (simp_all add: example_config_def)
  have l0: "\<forall>j<0::nat. isl (fst (embedMany length_sdk (sanitizedTexts ?three)
              (after_calls (embedMany length_sdk (sanitizedTexts ?three)) j ())))"
    by simp
  have l1: "embedMany length_sdk (sanitizedTexts ?three)
              (after_calls (embedMany length_sdk (sanitizedTexts ?three)) 0 ())
            = (Inr [ [5], [10] ], ())"
    by (simp add: sanitizedTexts_examples length_sdk_def)
  have ne: "sanitizedTexts ?three \<noteq> []" "sanitizedTexts [''valid''] \<noteq> []"
    by (simp_all add: sanitizedTexts_examples)
  have three: "2 \<le> length ?three" by simp
  from generateEmbeddings_batch[of example_config length_sdk "()" ?mock ?three] r(1) l0 l1 ne three
  have a: "generateEmbeddings example_config length_sdk ?three () = (Inr [ [5], [10] ], ())"
    by blast
  have f0: "\<forall>j<2. isl (fst (embedMany flaky_sdk ts (after_calls (embedMany flaky_sdk ts) j 0)))"
    for ts
    by (simp add: flaky_sdk_calls) (simp add: flaky_sdk_def)
  have f1: "embedMany flaky_sdk (sanitizedTexts ?three)
              (after_calls (embedMany flaky_sdk (sanitizedTexts ?three)) 2 0)
            = (Inr [ [5], [10] ], 3)"
    by (simp add: flaky_sdk_calls) (simp add: sanitizedTexts_examples flaky_sdk_def)
  from generateEmbeddings_batch[of example_config flaky_sdk 0 ?mock ?three] r(2) f0 f1 ne three
  have b: "generateEmbeddings example_config flaky_sdk ?three 0 = (Inr [ [5], [10] ], 3)"
    by blast
  have g0: "\<forall>j<2. isl (fst (embed flaky_sdk t (after_calls (embed flaky_sdk t) j 0)))" for t
    by (simp add: flaky_sdk_calls) (simp add: flaky_sdk_def)
  have g1: "embed flaky_sdk (sanitizeText (hd [''valid'']))
              (after_calls (embed flaky_sdk (sanitizeText (hd [''valid'']))) 2 0)
            = (Inr [5], 3)"
    by (simp add: flaky_sdk_calls) (simp add: sanitizeText_examples flaky_sdk_def)
  have one: "length [''valid''] = 1" by simp
  from generateEmbeddings_batch[of example_config flaky_sdk 0 ?mock "[''valid'']"] r(2) g0 g1 ne one
  have c: "generateEmbeddings example_config flaky_sdk [''valid''] 0 = (Inr [ [5] ], 3)"
    by blast
  have p: "\<forall>vals s0 ws s1. embedMany flaky_sdk vals s0 = (Inr ws, s1) \<longrightarrow> length ws = length vals"
    by (auto simp: flaky_sdk_def split: if_splits)
  from generateEmbeddings_batch[of example_config flaky_sdk 0 ?mock ?three] b p
  have d: "length [ [5], [10 :: real] ] = length (sanitizedTexts ?three)"
    by blast
  from generateEmbeddings_batch[of example_config flaky_sdk 0 ?mock ?three] ne
  have "generateEmbeddings_mock ?mock ?three
          = Inr (map ?mock [0 ..< length (sanitizedTexts ?three)])"
    by blast
  then have e: "generateEmbeddings_mock ?mock ?three = Inr [ [0], [1] ]"
    by (simp add: sanitizedTexts_examples upt_rec)
  from generateEmbeddings_batch[of example_config flaky_sdk 0 ?mock "[''valid'']"] ne
  have "generateEmbeddings_mock ?mock [''valid'']
          = Inr (map ?mock [0 ..< length (sanitizedTexts [''valid''])])"
    by blast
  then have f: "generateEmbeddings_mock ?mock [''valid''] = Inr [ [0] ]"
    by (simp add: sanitizedTexts_examples)
  have two: "2 \<le> length ['''', ''  '']" "length [''  ''] = 1" by simp_all
  have none: "sanitizedTexts ['''', ''  ''] = []" "sanitizedTexts [''  ''] = []"
    by (simp_all add: sanitizedTexts_examples)
  from generateEmbeddings_batch[of example_config length_sdk "()" ?mock "['''', ''  '']"]
    two(1) none(1)
  have g: "generateEmbeddings example_config length_sdk ['''', ''  ''] () = (Inl no_valid_texts, ())"
    "generateEmbeddings_mock ?mock ['''', ''  ''] = Inl no_valid_texts"
    by blast+
  from generateEmbeddings_batch[of example_config length_sdk "()" ?mock "[''  '']"]
    two(2) none(2)
  have h: "generateEmbeddings example_config length_sdk [''  ''] () = (Inl empty_text, ())"
    by blast
  from a b c d e f g h show ?thesis by blast
qed

section \<open>Search results and the similarity threshold\<close>

lemma collectResults_eq:
  "collectResults q items results =
     results @ map (\<lambda>item. \<lparr> document = toDocument item, score = relevance q (toDocument item) \<rparr>)
                   (filter (\<lambda>item. similarity_threshold q \<le> relevance q (toDocument item)) items)"
  by (induction items arbitrary: results) (simp_all add: Let_def)

lemma collectResults_threshold:
  "r \<in> set (collectResults q items []) \<Longrightarrow>
      similarity_threshold q \<le> score r \<and> score r = relevance q (document r)"
  by (auto simp: collectResults_eq)

lemma collectResults_none_pass:
  "\<forall>item \<in> set items. relevance q (toDocument item) < similarity_threshold q \<Longrightarrow>
   collectResults q items [] = []"
  by (auto simp: collectResults_eq filter_empty_conv)

lemma searchDocuments_cases:
  "searchDocuments config fetch q s = (Inr rs, s') \<Longrightarrow>
   rs = [] \<or> (\<exists>items. rs = collectResults q items [])"
  by (auto simp: searchDocuments_def Let_def split: sum.splits option.splits)

lemma searchDocuments_origin:
  assumes a: "searchDocuments config fetch q s = (Inr rs, s')"
  shows "\<exists>k response.
           fetch (limit q) (offset q) (after_calls (fetch (limit q) (offset q)) k s)
             = (Inr response, s')
           \<and> rs = (case response of
                      None \<Rightarrow> []
                    | Some items \<Rightarrow>
                        map (\<lambda>item. \<lparr> document = toDocument item,
                                       score = relevance q (toDocument item) \<rparr>)
                          (filter (\<lambda>item. similarity_threshold q \<le> relevance q (toDocument item))
                             items))"
proof -
  let ?run = "retryWithBackoff (fetch (limit q) (offset q)) (weaviate_retries config) 1000 s"
  from a obtain response where o: "outcome ?run = Inr response"
    by (auto simp: searchDocuments_def Let_def split: sum.splits option.splits)
  from a o have s': "after ?run = s'"
    and rs: "rs = (case response of
                      None \<Rightarrow> []
                    | Some items \<Rightarrow>
                        map (\<lambda>item. \<lparr> document = toDocument item,
                                       score = relevance q (toDocument item) \<rparr>)
                          (filter (\<lambda>item. similarity_threshold q \<le> relevance q (toDocument item))
                             items))"
    by (auto simp: searchDocuments_def Let_def collectResults_eq split: option.splits)
  from retryWithBackoff_success_origin[OF o] s' rs show ?thesis by auto
qed

lemma searchDocuments_later_success:
  assumes "\<forall>j<k. isl (fst (fetch (limit q) (offset q)
                              (after_calls (fetch (limit q) (offset q)) j s)))"
    and "fetch (limit q) (offset q) (after_calls (fetch (limit q) (offset q)) k s)
           = (Inr response, s')"
    and "int k \<le> weaviate_retries config"
  shows "searchDocuments config fetch q s = (Inr (case response of
                      None \<Rightarrow> []
                    | Some items \<Rightarrow>
                        map (\<lambda>item. \<lparr> document = toDocument item,
                                       score = relevance q (toDocument item) \<rparr>)
                          (filter (\<lambda>item. similarity_threshold q \<le> relevance q (toDocument item))
                             items)), s')"
  using retryWithBackoff_later_success[OF assms(1,2,3), of 1000]
  by (simp add: searchDocuments_def Let_def collectResults_eq split: option.splits)

text \<open>
  C10. Every result returned by \<open>searchDocuments\<close> has a score that is at least the
  query's \<open>similarity_threshold\<close>, the score being 0.9 when the lower-cased title
  contains the lower-cased query, else 0.7 when the lower-cased content contains it,
  else 0.3. The results are, in the store's order, exactly the candidates of one answer
  of the store whose score meets the threshold; and whenever the store answers at some
  attempt within the retry budget, the attempts before it having failed, the search
  returns these results. So a search with threshold 0.95 whose candidates all score 0.7
  returns the empty list, not an error.
\<close>

theorem searchDocuments_threshold:
  "(\<forall>rs s'. searchDocuments config fetch q s = (Inr rs, s') \<longrightarrow>
      (\<forall>r \<in> set rs.
          similarity_threshold q \<le> score r
          \<and> score r =
              (if includes_str (toLowerCase (title (document r))) (toLowerCase (query q))
               then 9 / 10
               else if includes_str (toLowerCase (content (document r))) (toLowerCase (query q))
               then 7 / 10
               else 3 / 10))
      \<and> (\<exists>k response.
            fetch (limit q) (offset q) (after_calls (fetch (limit q) (offset q)) k s)
              = (Inr response, s')
            \<and> rs = (case response of
                      None \<Rightarrow> []
                    | Some items \<Rightarrow>
                        map (\<lambda>item. \<lparr> document = toDocument item,
                                       score = relevance q (toDocument item) \<rparr>)
                          (filter (\<lambda>item. similarity_threshold q \<le> relevance q (toDocument item))
                             items))))
   \<and> (\<forall>k response s'.
         int k \<le> weaviate_retries config
         \<and> (\<forall>j<k. isl (fst (fetch (limit q) (offset q)
                               (after_calls (fetch (limit q) (offset q)) j s))))
         \<and> fetch (limit q) (offset q) (after_calls (fetch (limit q) (offset q)) k s)
             = (Inr response, s')
       \<longrightarrow> searchDocuments config fetch q s
             = (Inr (case response of
                       None \<Rightarrow> []
                     | Some items \<Rightarrow>
                         map (\<lambda>item. \<lparr> document = toDocument item,
                                        score = relevance q (toDocument item) \<rparr>)
                           (filter (\<lambda>item. similarity_threshold q \<le> relevance q (toDocument item))
                              items)), s'))
   \<and> (\<forall>k items s'.
         int k \<le> weaviate_retries config
         \<and> (\<forall>j<k. isl (fst (fetch (limit q) (offset q)
                               (after_calls (fetch (limit q) (offset q)) j s))))
         \<and> fetch (limit q) (offset q) (after_calls (fetch (limit q) (offset q)) k s)
             = (Inr (Some items), s')
         \<and> similarity_threshold q = 95 / 100
         \<and> (\<forall>item \<in> set items. relevance q (toDocument item) = 7 / 10)
       \<longrightarrow> searchDocuments config fetch q s = (Inr [], s'))"
proof (intro conjI allI impI ballI)
  fix rs s' r
  assume a: "searchDocuments config fetch q s = (Inr rs, s')" and r: "r \<in> set rs"
  from searchDocuments_cases[OF a] r obtain items where "r \<in> set (collectResults q items [])"
    by auto
  from collectResults_threshold[OF this]
  show "similarity_threshold q \<le> score r"
    "score r =
       (if includes_str (toLowerCase (title (document r))) (toLowerCase (query q))
        then 9 / 10
        else if includes_str (toLowerCase (content (document r))) (toLowerCase (query q))
        then 7 / 10
        else 3 / 10)"
    by (simp_all add: relevance_def Let_def)
next
  fix rs s'
  assume a: "searchDocuments config fetch q s = (Inr rs, s')"
  from searchDocuments_origin[OF a]
  show "\<exists>k response.
            fetch (limit q) (offset q) (after_calls (fetch (limit q) (offset q)) k s)
              = (Inr response, s')
            \<and> rs = (case response of
                      None \<Rightarrow> []
                    | Some items \<Rightarrow>
                        map (\<lambda>item. \<lparr> document = toDocument item,
                                       score = relevance q (toDocument item) \<rparr>)
                          (filter (\<lambda>item. similarity_threshold q \<le> relevance q (toDocument item))
                             items))"
    .
next
  fix k response s'
  assume h: "int k \<le> weaviate_retries config
         \<and> (\<forall>j<k. isl (fst (fetch (limit q) (offset q)
                               (after_calls (fetch (limit q) (offset q)) j s))))
         \<and> fetch (limit q) (offset q) (after_calls (fetch (limit q) (offset q)) k s)
             = (Inr response, s')"
  then have h1: "\<forall>j<k. isl (fst (fetch (limit q) (offset q)
                               (after_calls (fetch (limit q) (offset q)) j s)))"
    and h2: "fetch (limit q) (offset q) (after_calls (fetch (limit q) (offset q)) k s)
             = (Inr response, s')"
    and h3: "int k \<le> weaviate_retries config"
    by simp_all
  show "searchDocuments config fetch q s
             = (Inr (case response of
                       None \<Rightarrow> []
                     | Some items \<Rightarrow>
                         map (\<lambda>item. \<lparr> document = toDocument item,
                                        score = relevance q (toDocument item) \<rparr>)
                           (filter (\<lambda>item. similarity_threshold q \<le> relevance q (toDocument item))
                              items)), s')"
    by (rule searchDocuments_later_success[where fetch=fetch and q=q and k=k and s=s, OF h1 h2 h3])
next
  fix k items s'
  assume h: "int k \<le> weaviate_retries config
         \<and> (\<forall>j<k. isl (fst (fetch (limit q) (offset q)
                               (after_calls (fetch (limit q) (offset q)) j s))))
         \<and> fetch (limit q) (offset q) (after_calls (fetch (limit q) (offset q)) k s)
             = (Inr (Some items), s')
         \<and> similarity_threshold q = 95 / 100
         \<and> (\<forall>item \<in> set items. relevance q (toDocument item) = 7 / 10)"
  have "relevance q (toDocument item) < similarity_threshold q" if "item \<in> set items" for item
  proof -
    from h that have "relevance q (toDocument item) = 7 / 10" by blast
    moreover from h have "similarity_threshold q = 95 / 100" by blast
    ultimately show ?thesis by simp
  qed
  then have c: "filter (\<lambda>item. similarity_threshold q \<le> relevance q (toDocument item)) items = []"
    by (fastforce simp: filter_empty_conv not_le)
  from h have h1: "\<forall>j<k. isl (fst (fetch (limit q) (offset q)
                               (after_calls (fetch (limit q) (offset q)) j s)))"
    and h2: "fetch (limit q) (offset q) (after_calls (fetch (limit q) (offset q)) k s)
             = (Inr (Some items), s')"
    and h3: "int k \<le> weaviate_retries config"
    by simp_all
  have "searchDocuments config fetch q s
           = (Inr (case Some items of
                      None \<Rightarrow> []
                    | Some items \<Rightarrow>
                        map (\<lambda>item. \<lparr> document = toDocument item,
                                       score = relevance q (toDocument item) \<rparr>)
                          (filter (\<lambda>item. similarity_threshold q \<le> relevance q (toDocument item))
                             items)), s')"
    by (rule searchDocuments_later_success[where fetch=fetch and q=q and k=k and s=s, OF h1 h2 h3])
  with c show "searchDocuments config fetch q s = (Inr [], s')" by simp
qed

lemma example_relevance:
  "map (\<lambda>item. relevance \<lparr> query = ''SCHEMA'', limit = 10, offset = 0, similarity_threshold = t \<rparr>
                 (toDocument item)) example_items = [7 / 10, 9 / 10, 3 / 10]"
  by (simp add: example_items_def relevance_def toDocument_def toLowerCase_def lowerChar_def
        char_of_def bit_Suc_0_iff Let_def)

lemma accented_relevance:
  "relevance \<lparr> query = [CHR 0xE9], limit = 10, offset = 0, similarity_threshold = t \<rparr>
     (toDocument accented_item) = 9 / 10"
  by (simp add: accented_item_def relevance_def toDocument_def toLowerCase_def lowerChar_def
        char_of_def bit_Suc_0_iff Let_def)

lemma flaky_store_calls:
  "after_calls (flaky_store n m) k s = s + k"
  by (induction k arbitrary: s) (simp_all add: flaky_store_def)

theorem searchDocuments_threshold_witness:
  "searchDocuments example_weaviate_config example_store
     \<lparr> query = ''SCHEMA'', limit = 10, offset = 0, similarity_threshold = 7 / 10 \<rparr> ()
     = (Inr [ \<lparr> document = toDocument (example_items ! 0), score = 7 / 10 \<rparr>,
              \<lparr> document = toDocument (example_items ! 1), score = 9 / 10 \<rparr> ], ())
   \<and> (7 / 10 :: real) \<le> score \<lparr> document = toDocument (example_items ! 0), score = 7 / 10 \<rparr>
   \<and> (7 / 10 :: real) \<le> score \<lparr> document = toDocument (example_items ! 1), score = 9 / 10 \<rparr>
   \<and> relevance \<lparr> query = ''SCHEMA'', limit = 10, offset = 0, similarity_threshold = 95 / 100 \<rparr>
         (toDocument (hd example_items)) = 7 / 10
   \<and> searchDocuments example_weaviate_config flaky_store
        \<lparr> query = ''SCHEMA'', limit = 10, offset = 0, similarity_threshold = 95 / 100 \<rparr> 0
       = (Inr [], 3)
   \<and> searchDocuments example_weaviate_config flaky_store
        \<lparr> query = ''SCHEMA'', limit = 10, offset = 0, similarity_threshold = 7 / 10 \<rparr> 0
       = (Inr [ \<lparr> document = toDocument (example_items ! 0), score = 7 / 10 \<rparr> ], 3)"
proof -
  let ?p = "\<lparr> query = ''SCHEMA'', limit = 10, offset = 0, similarity_threshold = 7 / 10 \<rparr>"
  let ?q = "\<lparr> query = ''SCHEMA'', limit = 10, offset = 0, similarity_threshold = 95 / 100 \<rparr>"
  let ?r0 = "\<lparr> document = toDocument (example_items ! 0), score = 7 / 10 \<rparr>"
  let ?r1 = "\<lparr> document = toDocument (example_items ! 1), score = 9 / 10 \<rparr>"
  have p: "similarity_threshold ?p = 7 / 10" by simp
  have example_search: "searchDocuments example_weaviate_config example_store ?p ()
     = (Inr [?r0, ?r1], ())"
    using example_relevance[of "7 / 10"]
    by (simp add: searchDocuments_def retryWithBackoff_def retry_loop.simps
        example_weaviate_config_def example_store_def collectResults_eq example_items_def)
  from searchDocuments_threshold[of example_weaviate_config example_store ?p "()"] example_search
  have "\<forall>r \<in> set [?r0, ?r1]. similarity_threshold ?p \<le> score r"
    by blast
  then have first: "(7 / 10 :: real) \<le> score ?r0 \<and> (7 / 10 :: real) \<le> score ?r1"
    unfolding p by simp
  have r: "relevance ?q (toDocument (hd example_items)) = 7 / 10"
    using example_relevance[of "95 / 100"] by (simp add: example_items_def)
  have r7: "relevance ?p (toDocument (example_items ! 0)) = 7 / 10"
    using example_relevance[of "7 / 10"] by (simp add: example_items_def)
  have hd0: "hd example_items = example_items ! 0" by (simp add: example_items_def)
  have c: "int 2 \<le> weaviate_retries example_weaviate_config"
    by (simp add: example_weaviate_config_def)
  have fails: "\<forall>j<2. isl (fst (flaky_store n m (after_calls (flaky_store n m) j 0)))" for n m
    by (simp add: flaky_store_calls flaky_store_def)
  have f: "flaky_store n m (after_calls (flaky_store n m) 2 0) = (Inr (Some [hd example_items]), 3)"
    for n m
    by (simp add: flaky_store_calls) (simp add: flaky_store_def)
  have t: "similarity_threshold ?q = 95 / 100" by simp
  from r have r': "\<forall>item \<in> set [hd example_items]. relevance ?q (toDocument item) = 7 / 10"
    by simp
  from searchDocuments_threshold[of example_weaviate_config flaky_store ?q 0] r' f fails c t
  have none: "searchDocuments example_weaviate_config flaky_store ?q 0 = (Inr [], 3)"
    by blast
  from searchDocuments_threshold[of example_weaviate_config flaky_store ?p 0] f fails c
  have "searchDocuments example_weaviate_config flaky_store ?p 0
          = (Inr (case Some [hd example_items] of
                       None \<Rightarrow> []
                     | Some items \<Rightarrow>
                         map (\<lambda>item. \<lparr> document = toDocument item,
                                        score = relevance ?p (toDocument item) \<rparr>)
                           (filter (\<lambda>item. similarity_threshold ?p \<le> relevance ?p (toDocument item))
                              items)), 3)"
    by blast
  then have one: "searchDocuments example_weaviate_config flaky_store ?p 0 = (Inr [?r0], 3)"
    by (simp add: r7 hd0)
  from first r example_search none one show ?thesis by blast
qed

section \<open>Cosine similarity\<close>

lemma round_even_int: "round_even (of_int n) = n"
  by (simp add: round_even_def)

lemma round_even_numeral [simp]:
  "round_even (numeral k) = numeral k" "round_even (- numeral k) = - numeral k"
  using round_even_int[of "numeral k"] round_even_int[of "- numeral k"] by simp_all

lemma to_double_0: "to_double 0 = Fin 0"
  by (simp add: to_double_def round_double_def max_double_def)

lemma round_double_1: "round_double 1 = 1" "round_double (- 1) = - 1"
  by (simp_all add: round_double_def quantum_def scale2_def)

lemma to_double_1: "to_double 1 = Fin 1" "to_double (- 1) = Fin (- 1)"
  by (simp_all add: to_double_def round_double_1 max_double_def)

text \<open>The square of \<open>huge\<close> overflows.\<close>

lemma quantum_2_1200: "quantum (2 ^ 1200) = 1148"
proof -
  have "log 2 ((2::real) ^ 1200) = real 1200" by (rule log_pow_cancel) simp_all
  moreover have "\<bar>(2::real) ^ 1200\<bar> = 2 ^ 1200"
    by (rule abs_of_nonneg) (rule zero_le_power, simp)
  ultimately show ?thesis unfolding quantum_def by simp
qed

lemma to_double_2_1200: "to_double (2 ^ 1200) = PosInf"
proof -
  have "(2::real) ^ 1200 / 2 ^ 1148 = 2 ^ 52" by (simp add: power_diff[symmetric])
  then have "round_double (2 ^ 1200) = 2 ^ 1200"
    unfolding round_double_def quantum_2_1200 scale2_def by simp
  then show ?thesis by (simp add: to_double_def max_double_def)
qed

lemma square_huge: "js_mul (Fin huge) (Fin huge) = PosInf"
proof -
  have "huge * huge = 2 ^ 1200" unfolding huge_def by (simp add: power_add[symmetric])
  then show ?thesis by (simp only: js_mul.simps to_double_2_1200)
qed

lemma clamp_cases:
  "Math_max (Fin 0) (Math_min (Fin 1) (Fin x)) = Fin (max 0 (min 1 x))"
  "Math_max (Fin 0) (Math_min (Fin 1) PosInf) = Fin 1"
  "Math_max (Fin 0) (Math_min (Fin 1) NegInf) = Fin 0"
  "Math_max (Fin 0) (Math_min (Fin 1) NaN) = NaN"
  by simp_all

lemma similarity_examples:
  "similarity [Fin 1, Fin 0] [Fin 1, Fin 0] = Fin 1"
  "similarity [Fin 1, Fin 0] [Fin 0, Fin 1] = Fin 0"
  "similarity [Fin 1] [Fin (- 1)] = Fin (- 1)"
  "similarity [Fin 0, Fin 0] [Fin 1, Fin 0] = NaN"
  "similarity [Fin 1, Fin 0] [Fin 0, Fin 0] = NaN"
  by (simp_all add: similarity_def cosine_step_def upt_rec to_double_0 to_double_1)

lemma similarity_overflow: "similarity [Fin huge] [Fin huge] = NaN"
  by (simp add: similarity_def cosine_step_def square_huge del: js_mul.simps) simp

text \<open>
  The rounding at work: for \<open>[1, 1]\<close> with itself the three sums are \<open>2\<close>, the square
  root of \<open>2\<close> rounds up, its square rounds to the double after \<open>2\<close>, and the quotient is
  the double \<open>1 - 1 / 2 ^ 52\<close>, printed \<open>0.9999999999999998\<close>.
\<close>

lemma round_even_near:
  assumes "of_int n - 1 / 2 < r" and "r < of_int n + 1 / 2"
  shows "round_even r = n"
proof (cases "of_int n \<le> r")
  case True
  with assms have "\<lfloor>r\<rfloor> = n" by (intro floor_unique) simp_all
  with assms True show ?thesis by (simp add: round_even_def Let_def)
next
  case False
  with assms have f: "\<lfloor>r\<rfloor> = n - 1" by (intro floor_unique) simp_all
  with assms False show ?thesis by (simp add: round_even_def Let_def)
qed

lemma quantum_between:
  assumes "2 powr real_of_int e \<le> \<bar>x\<bar>" and "\<bar>x\<bar> < 2 powr real_of_int (e + 1)" and "- 1022 \<le> e"
  shows "quantum x = e - 52"
proof -
  have "0 < (2::real) powr real_of_int e" by simp
  with assms(1) have pos: "0 < \<bar>x\<bar>" by linarith
  with assms(1,2) have "\<lfloor>log 2 \<bar>x\<bar>\<rfloor> = e"
    by (subst floor_log_eq_powr_iff) simp_all
  with assms(3) show ?thesis by (simp add: quantum_def)
qed

lemma quantum_examples:
  "quantum 2 = - 51" "quantum (sqrt 2) = - 52"
proof -
  show "quantum 2 = - 51"
    using quantum_between[of 1 2] by simp
  have "1 \<le> sqrt 2" by simp
  moreover have "sqrt 2 < 2" by (rule real_less_lsqrt) simp_all
  ultimately show "quantum (sqrt 2) = - 52"
    using quantum_between[of 0 "sqrt 2"] by simp
qed

lemma to_double_2: "to_double 2 = Fin 2"
  by (simp add: to_double_def round_double_def quantum_examples scale2_def max_double_def
        round_even_near[of "2 ^ 52"])

lemma sqrt_2_scaled:
  "6369051672525773 - 1 / 2 < sqrt 2 * 2 ^ 52" "sqrt 2 * 2 ^ 52 < 6369051672525773 + 1 / 2"
proof -
  have a: "((6369051672525773 - 1 / 2) / 2 ^ 52)\<^sup>2 < (2::real)" by (simp add: power2_eq_square)
  have "(6369051672525773 - 1 / 2) / 2 ^ 52 < sqrt 2"
    by (rule real_less_rsqrt) (rule a)
  then show "6369051672525773 - 1 / 2 < sqrt 2 * 2 ^ 52"
    by (simp add: field_simps)
  have b: "(2::real) < ((6369051672525773 + 1 / 2) / 2 ^ 52)\<^sup>2" by (simp add: power2_eq_square)
  have "sqrt 2 < (6369051672525773 + 1 / 2) / 2 ^ 52"
    by (rule real_less_lsqrt) (use b in simp_all)
  then show "sqrt 2 * 2 ^ 52 < 6369051672525773 + 1 / 2"
    by (simp add: field_simps)
qed

lemma to_double_sqrt_2: "to_double (sqrt 2) = Fin (6369051672525773 / 2 ^ 52)"
proof -
  have "round_even (sqrt 2 * 2 ^ 52) = 6369051672525773"
    using sqrt_2_scaled by (intro round_even_near) simp_all
  then have "round_double (sqrt 2) = 6369051672525773 / 2 ^ 52"
    by (simp add: round_double_def quantum_examples scale2_def)
  then show ?thesis by (simp add: to_double_def max_double_def)
qed


lemma round_double_eq:
  assumes "x \<noteq> 0" and "quantum x = - int k" and "0 < k" and "round_even (x * 2 ^ k) = n"
  shows "round_double x = of_int n / 2 ^ k"
  using assms by (simp add: round_double_def scale2_def)

lemma to_double_eq:
  assumes "round_double x = r" and "\<bar>r\<bar> \<le> 4"
  shows "to_double x = Fin r"
proof -
  have "(4::real) \<le> max_double" by (simp add: max_double_def)
  with assms show ?thesis by (auto simp: to_double_def Let_def)
qed

lemma to_double_sqrt_2_squared:
  "to_double ((6369051672525773 / 2 ^ 52) * (6369051672525773 / 2 ^ 52))
     = Fin (4503599627370497 / 2 ^ 51)"
proof -
  define p :: real where "p = (6369051672525773 / 2 ^ 52) * (6369051672525773 / 2 ^ 52)"
  have q: "quantum p = - int 51"
    using quantum_between[of 1 p] by (simp add: p_def)
  have r: "round_even (p * 2 ^ 51) = 4503599627370497"
    by (intro round_even_near) (simp_all add: p_def)
  have nz: "p \<noteq> 0" by (simp add: p_def)
  have "round_double p = of_int 4503599627370497 / 2 ^ 51"
    by (rule round_double_eq[OF nz q _ r]) simp
  then have "to_double p = Fin (of_int 4503599627370497 / 2 ^ 51)"
    by (rule to_double_eq) simp
  then show ?thesis by (simp add: p_def)
qed

lemma to_double_quotient:
  "to_double (2 / (4503599627370497 / 2 ^ 51)) = Fin (1 - 1 / 2 ^ 52)"
proof -
  define q :: real where "q = 2 / (4503599627370497 / 2 ^ 51)"
  have qu: "quantum q = - int 53"
    using quantum_between[of "- 1" q] by (simp add: q_def powr_minus)
  have r: "round_even (q * 2 ^ 53) = 9007199254740990"
    by (intro round_even_near) (simp_all add: q_def)
  have nz: "q \<noteq> 0" by (simp add: q_def)
  have "round_double q = of_int 9007199254740990 / 2 ^ 53"
    by (rule round_double_eq[OF nz qu _ r]) simp
  then have "to_double q = Fin (of_int 9007199254740990 / 2 ^ 53)"
    by (rule to_double_eq) simp
  then show ?thesis by (simp add: q_def)
qed

lemma similarity_ones:
  "similarity [Fin 1, Fin 1] [Fin 1, Fin 1] = Fin (1 - 1 / 2 ^ 52)"
proof -
  let ?a = "[Fin 1, Fin 1]"
  have loop: "foldl (cosine_step ?a ?a) (Fin 0, Fin 0, Fin 0) [0 ..< length ?a]
                = (Fin 2, Fin 2, Fin 2)"
    by (simp add: cosine_step_def upt_rec to_double_0 to_double_1 to_double_2)
  have s: "js_sqrt (Fin 2) = Fin (6369051672525773 / 2 ^ 52)"
    by (simp add: to_double_sqrt_2)
  have m: "js_mul (Fin (6369051672525773 / 2 ^ 52)) (Fin (6369051672525773 / 2 ^ 52))
             = Fin (4503599627370497 / 2 ^ 51)"
    by (simp only: js_mul.simps to_double_sqrt_2_squared)
  have nz: "(4503599627370497 / 2 ^ 51 :: real) \<noteq> 0" by simp
  have d: "js_div (Fin 2) (Fin (4503599627370497 / 2 ^ 51)) = Fin (1 - 1 / 2 ^ 52)"
    by (simp only: js_div.simps nz if_False to_double_quotient)
  show ?thesis
    by (simp only: similarity_def loop prod.case s m d)
qed

lemma calculateCosineSimilarity_ones:
  "calculateCosineSimilarity [Fin 1, Fin 1] [Fin 1, Fin 1] = Inr (Fin (1 - 1 / 2 ^ 52))"
  by (simp add: calculateCosineSimilarity_def similarity_ones)

text \<open>
  A vector whose entries are all \<open>0\<close> has the norm \<open>0\<close> and makes the dot product \<open>0\<close> or
  \<open>NaN\<close>, so the quotient is \<open>NaN\<close> whatever the other vector holds.
\<close>

lemma js_mul_zero: "js_mul (Fin 0) y = Fin 0 \<or> js_mul (Fin 0) y = NaN"
  by (cases y) (simp_all add: to_double_0)

lemma js_add_zero_or_NaN:
  "d = Fin 0 \<or> d = NaN \<Longrightarrow> e = Fin 0 \<or> e = NaN \<Longrightarrow> js_add d e = Fin 0 \<or> js_add d e = NaN"
  by (auto simp: to_double_0)

lemma zero_vector_loop:
  assumes "\<forall>i \<in> set is. vectorA ! i = Fin 0" and "d = Fin 0 \<or> d = NaN"
  shows "\<exists>d' nb'. foldl (cosine_step vectorA vectorB) (d, Fin 0, nb) is = (d', Fin 0, nb')
                   \<and> (d' = Fin 0 \<or> d' = NaN)"
  using assms
proof (induction "is" arbitrary: d nb)
  case Nil
  then show ?case by simp
next
  case (Cons i "is")
  from Cons.prems have a: "vectorA ! i = Fin 0" by simp
  let ?d = "js_add d (js_mul (Fin 0) (vectorB ! i))"
  have d: "?d = Fin 0 \<or> ?d = NaN"
    by (rule js_add_zero_or_NaN[OF Cons.prems(2) js_mul_zero])
  have step: "cosine_step vectorA vectorB (d, Fin 0, nb) i
                = (?d, Fin 0, js_add nb (js_mul (vectorB ! i) (vectorB ! i)))"
    by (simp add: cosine_step_def a to_double_0)
  from Cons.prems have "\<forall>i \<in> set is. vectorA ! i = Fin 0" by simp
  from Cons.IH[OF this d] show ?case by (simp add: step)
qed

lemma quotient_of_zero_norm:
  assumes "d = Fin 0 \<or> d = NaN"
  shows "js_div d (js_mul (js_sqrt (Fin 0)) y) = NaN"
proof -
  have s: "js_sqrt (Fin 0) = Fin 0" by (simp add: to_double_0)
  from js_mul_zero[of y] assms show ?thesis
    unfolding s by auto
qed

lemma zero_vector_similarity:
  assumes "\<forall>x \<in> set vectorA. x = Fin 0"
  shows "similarity vectorA vectorB = NaN"
proof -
  have "\<forall>i \<in> set [0 ..< length vectorA]. vectorA ! i = Fin 0"
    using assms by simp
  from zero_vector_loop[OF this, of "Fin 0" vectorB "Fin 0"]
  obtain d' nb' where
    l: "foldl (cosine_step vectorA vectorB) (Fin 0, Fin 0, Fin 0) [0 ..< length vectorA]
          = (d', Fin 0, nb')"
    and d': "d' = Fin 0 \<or> d' = NaN"
    by auto
  show ?thesis
    by (simp only: similarity_def l prod.case quotient_of_zero_norm[OF d'])
qed

lemma js_mul_zero_right: "js_mul y (Fin 0) = Fin 0 \<or> js_mul y (Fin 0) = NaN"
  by (cases y) (simp_all add: to_double_0)

lemma zero_vector_loop_right:
  assumes "\<forall>i \<in> set is. vectorB ! i = Fin 0" and "d = Fin 0 \<or> d = NaN"
  shows "\<exists>d' na'. foldl (cosine_step vectorA vectorB) (d, na, Fin 0) is = (d', na', Fin 0)
                   \<and> (d' = Fin 0 \<or> d' = NaN)"
  using assms
proof (induction "is" arbitrary: d na)
  case Nil
  then show ?case by simp
next
  case (Cons i "is")
  from Cons.prems have b: "vectorB ! i = Fin 0" by simp
  let ?d = "js_add d (js_mul (vectorA ! i) (Fin 0))"
  have d: "?d = Fin 0 \<or> ?d = NaN"
    by (rule js_add_zero_or_NaN[OF Cons.prems(2) js_mul_zero_right])
  have step: "cosine_step vectorA vectorB (d, na, Fin 0) i
                = (?d, js_add na (js_mul (vectorA ! i) (vectorA ! i)), Fin 0)"
    by (simp add: cosine_step_def b to_double_0)
  from Cons.prems have "\<forall>i \<in> set is. vectorB ! i = Fin 0" by simp
  from Cons.IH[OF this d] show ?case by (simp add: step)
qed

lemma quotient_of_zero_norm_right:
  assumes "d = Fin 0 \<or> d = NaN"
  shows "js_div d (js_mul y (js_sqrt (Fin 0))) = NaN"
proof -
  have s: "js_sqrt (Fin 0) = Fin 0" by (simp add: to_double_0)
  from js_mul_zero_right[of y] assms show ?thesis
    unfolding s by auto
qed

lemma zero_vector_similarity_right:
  assumes "length vectorA = length vectorB" and "\<forall>x \<in> set vectorB. x = Fin 0"
  shows "similarity vectorA vectorB = NaN"
proof -
  have "\<forall>i \<in> set [0 ..< length vectorA]. vectorB ! i = Fin 0"
    using assms by simp
  from zero_vector_loop_right[OF this, of "Fin 0" vectorA "Fin 0"]
  obtain d' na' where
    l: "foldl (cosine_step vectorA vectorB) (Fin 0, Fin 0, Fin 0) [0 ..< length vectorA]
          = (d', na', Fin 0)"
    and d': "d' = Fin 0 \<or> d' = NaN"
    by auto
  show ?thesis
    by (simp only: similarity_def l prod.case quotient_of_zero_norm_right[OF d'])
qed

lemma zero_vector_NaN:
  "length vectorA = length vectorB \<Longrightarrow>
   (\<forall>x \<in> set vectorA. x = Fin 0) \<or> (\<forall>x \<in> set vectorB. x = Fin 0) \<Longrightarrow>
   calculateCosineSimilarity vectorA vectorB = Inr NaN"
  by (auto simp: calculateCosineSimilarity_def zero_vector_similarity
        zero_vector_similarity_right)

text \<open>
  C5. The claim: for every pair of input vectors \<open>calculateCosineSimilarity\<close> returns a
  score in \<open>[0,1]\<close>, and when either vector has zero magnitude the result is the score
  \<open>0\<close>, not an error. The function has no case for a zero magnitude: for a zero vector
  the quotient is \<open>0 / 0\<close>, which is \<open>NaN\<close>, and \<open>Math.min\<close> and \<open>Math.max\<close> pass \<open>NaN\<close>
  on, so the last line, commented "Clamp between 0 and 1", returns \<open>NaN\<close>, which is
  neither \<open>0\<close> nor a number in \<open>[0,1]\<close>; this is so for every zero vector (lemma
  \<open>zero_vector_NaN\<close>). The same happens when the norms overflow, as for the one-entry
  vector \<open>huge = 2 ^ 600\<close> with itself: the quotient is \<open>Infinity / Infinity\<close>.
\<close>

theorem calculateCosineSimilarity_zero_magnitude:
  "calculateCosineSimilarity [Fin 0, Fin 0] [Fin 1, Fin 0] = Inr NaN
   \<and> calculateCosineSimilarity [Fin 1, Fin 0] [Fin 0, Fin 0] = Inr NaN
   \<and> calculateCosineSimilarity [Fin huge] [Fin huge] = Inr NaN"
  by (simp add: calculateCosineSimilarity_def similarity_examples similarity_overflow)

text \<open>
  What the last line does achieve: vectors of different lengths are rejected by the
  guard at the start of the function, and for two vectors of the same length, whenever
  the computed quotient \<open>dotProduct / (sqrt normA * sqrt normB)\<close> is not \<open>NaN\<close>, the result
  is that quotient clamped into \<open>[0,1]\<close>: a number \<open>r\<close> with \<open>0 \<le> r \<le> 1\<close>, equal to
  \<open>max 0 (min 1 x)\<close> when the quotient is the finite value \<open>x\<close>, to \<open>1\<close> when it is
  \<open>+Infinity\<close> and to \<open>0\<close> when it is \<open>-Infinity\<close>.
\<close>

lemma calculateCosineSimilarity_clamped:
  "(length a \<noteq> length b \<longrightarrow>
      calculateCosineSimilarity a b = Inl (Error ''Vectors must have the same length''))
   \<and> (length a = length b \<and> similarity a b \<noteq> NaN \<longrightarrow>
        (\<exists>r. calculateCosineSimilarity a b = Inr (Fin r) \<and> 0 \<le> r \<and> r \<le> 1
             \<and> (\<forall>x. similarity a b = Fin x \<longrightarrow> r = max 0 (min 1 x))
             \<and> (similarity a b = PosInf \<longrightarrow> r = 1)
             \<and> (similarity a b = NegInf \<longrightarrow> r = 0)))"
proof (intro conjI impI)
  assume "length a \<noteq> length b"
  then show "calculateCosineSimilarity a b = Inl (Error ''Vectors must have the same length'')"
    by (simp add: calculateCosineSimilarity_def)
next
  assume h: "length a = length b \<and> similarity a b \<noteq> NaN"
  then show "\<exists>r. calculateCosineSimilarity a b = Inr (Fin r) \<and> 0 \<le> r \<and> r \<le> 1
             \<and> (\<forall>x. similarity a b = Fin x \<longrightarrow> r = max 0 (min 1 x))
             \<and> (similarity a b = PosInf \<longrightarrow> r = 1)
             \<and> (similarity a b = NegInf \<longrightarrow> r = 0)"
    by (cases "similarity a b") (simp_all add: calculateCosineSimilarity_def)
qed

lemma calculateCosineSimilarity_clamped_examples:
  "calculateCosineSimilarity [Fin 1, Fin 0] [Fin 1, Fin 0] = Inr (Fin 1)
   \<and> calculateCosineSimilarity [Fin 1, Fin 0] [Fin 0, Fin 1] = Inr (Fin 0)
   \<and> calculateCosineSimilarity [Fin 1] [Fin (- 1)] = Inr (Fin 0)
   \<and> calculateCosineSimilarity [Fin 1] [Fin 1, Fin 2]
       = Inl (Error ''Vectors must have the same length'')"
  using calculateCosineSimilarity_clamped[of "[Fin 1, Fin 0]" "[Fin 1, Fin 0]"]
    calculateCosineSimilarity_clamped[of "[Fin 1, Fin 0]" "[Fin 0, Fin 1]"]
    calculateCosineSimilarity_clamped[of "[Fin 1]" "[Fin (- 1)]"]
    calculateCosineSimilarity_clamped[of "[Fin 1]" "[Fin 1, Fin 2]"]
  by (auto simp: similarity_examples)

section \<open>Single-flight indexing\<close>

lemma single_flight_idle: "single_flight (idle w)"
  by (simp add: single_flight_def idle_def)

lemma single_flight_enter: "single_flight c \<Longrightarrow> single_flight (enter_pass sweeps c)"
  by (auto simp: single_flight_def enter_pass_def)

lemma single_flight_leave:
  "single_flight c \<Longrightarrow> i < length (passes c) \<Longrightarrow> single_flight (leave_pass i line w c)"
  by (auto simp: single_flight_def leave_pass_def drop_pass_def)

lemma single_flight_step: "single_flight c \<Longrightarrow> single_flight (step sweeps c ev)"
proof (cases ev)
  case TimerTick
  assume "single_flight c"
  with TimerTick show ?thesis by (simp add: single_flight_enter)
next
  case ManualTrigger
  assume "single_flight c"
  then have "single_flight (c \<lparr> outside := say ''Manual indexing triggered'' (outside c) \<rparr>)"
    by (simp add: single_flight_def)
  with ManualTrigger show ?thesis by (simp add: single_flight_enter)
next
  case (Resume i)
  assume sf: "single_flight c"
  show ?thesis
  proof (cases "i < length (passes c)")
    case False
    with Resume sf show ?thesis by simp
  next
    case True
    show ?thesis
    proof (cases "passes c ! i")
      case Nil
      with Resume True sf show ?thesis by (simp add: single_flight_leave)
    next
      case (Cons sw rest)
      show ?thesis
      proof (cases "sw (outside c)")
        case (Pair r w')
        show ?thesis
        proof (cases r)
          case (Inl e)
          with Resume True sf Cons Pair show ?thesis by (simp add: single_flight_leave)
        next
          case (Inr u)
          from sf True have "single_flight (c \<lparr> passes := (passes c)[i := rest], outside := w' \<rparr>)"
            by (auto simp: single_flight_def)
          with Resume True Cons Pair Inr show ?thesis by simp
        qed
      qed
    qed
  qed
qed

lemma single_flight_run: "single_flight c \<Longrightarrow> single_flight (run sweeps c evs)"
  unfolding run_def by (induction evs arbitrary: c) (simp_all add: single_flight_step)

lemma performIndexing_busy:
  "isIndexing s \<Longrightarrow>
   performIndexing sweeps (s, w) = (s, say ''Indexing already in progress, skipping...'' w)"
  by (simp add: performIndexing_def)

lemma triggerIndexing_busy:
  "isIndexing s \<Longrightarrow>
   triggerIndexing sweeps (s, w) =
     (s, say ''Indexing already in progress, skipping...'' (say ''Manual indexing triggered'' w))"
  by (simp add: triggerIndexing_def performIndexing_def)

lemma performIndexing_releases:
  "\<not> isIndexing s \<Longrightarrow> fst (performIndexing sweeps (s, w)) = s"
  by (cases "try_block sweeps (say ''Starting indexing process...'' w)")
     (auto simp: performIndexing_def Let_def split: sum.splits)

lemma resume_nothing: "passes c = [] \<Longrightarrow> foldl (step sweeps) c (replicate n (Resume 0)) = c"
  by (induction n) simp_all

lemma resume_pass:
  "passes c = [pending] \<Longrightarrow>
   foldl (step sweeps) c (replicate (Suc (length pending)) (Resume 0)) =
     (case try_block pending (outside c) of
        (Inr u, w') \<Rightarrow> leave_pass 0 ''Indexing process completed successfully'' w' c
      | (Inl e, w') \<Rightarrow> leave_pass 0 ''Indexing process failed:'' w' c)"
proof (induction pending arbitrary: c)
  case Nil
  then show ?case by simp
next
  case (Cons sw rest)
  show ?case
  proof (cases "sw (outside c)")
    case (Pair r w')
    show ?thesis
    proof (cases r)
      case (Inl e)
      have e: "passes (leave_pass 0 ''Indexing process failed:'' w' c) = []"
        using Cons.prems by (simp add: leave_pass_def drop_pass_def)
      from resume_nothing[OF e] Cons.prems Pair Inl show ?thesis by (simp add: e)
    next
      case (Inr u)
      let ?c' = "c \<lparr> passes := (passes c)[0 := rest], outside := w' \<rparr>"
      let ?end = "\<lambda>c. case try_block rest w' of
          (Inr u, w'') \<Rightarrow> leave_pass 0 ''Indexing process completed successfully'' w'' c
        | (Inl e, w'') \<Rightarrow> leave_pass 0 ''Indexing process failed:'' w'' c"
      have p: "passes ?c' = [rest]" using Cons.prems by simp
      have l: "leave_pass 0 line w'' ?c' = leave_pass 0 line w'' c" for line w''
        using Cons.prems by (simp add: leave_pass_def drop_pass_def)
      have s1: "step sweeps c (Resume 0) = ?c'"
        using Cons.prems Pair Inr by simp
      have "replicate (Suc (length (sw # rest))) (Resume 0)
              = Resume 0 # replicate (Suc (length rest)) (Resume 0)"
        by simp
      then have "foldl (step sweeps) c (replicate (Suc (length (sw # rest))) (Resume 0))
          = foldl (step sweeps) (step sweeps c (Resume 0)) (replicate (Suc (length rest)) (Resume 0))"
        by (simp only: foldl_Cons)
      also have "\<dots> = foldl (step sweeps) ?c' (replicate (Suc (length rest)) (Resume 0))"
        by (simp only: s1)
      also have "\<dots> = ?end ?c'"
        using Cons.IH[OF p] by simp
      also have "\<dots> = ?end c"
        by (simp only: l)
      also have "\<dots> = (case try_block (sw # rest) (outside c) of
          (Inr u, w'') \<Rightarrow> leave_pass 0 ''Indexing process completed successfully'' w'' c
        | (Inl e, w'') \<Rightarrow> leave_pass 0 ''Indexing process failed:'' w'' c)"
        using Pair Inr by simp
      finally show ?thesis .
    qed
  qed
qed

lemma pass_agrees:
  "run sweeps (idle w) (TimerTick # replicate (Suc (length sweeps)) (Resume 0))
   = \<lparr> service = fst (performIndexing sweeps (\<lparr> isIndexing = False, indexingInterval = None \<rparr>, w)),
       passes = [],
       outside = snd (performIndexing sweeps (\<lparr> isIndexing = False, indexingInterval = None \<rparr>, w)) \<rparr>"
proof -
  let ?c = "enter_pass sweeps (idle w)"
  have p: "passes ?c = [sweeps]" by (simp add: enter_pass_def idle_def)
  show ?thesis
    unfolding run_def
    using resume_pass[OF p, of sweeps]
    by (cases "try_block sweeps (say ''Starting indexing process...'' w)")
       (auto simp: performIndexing_def enter_pass_def idle_def leave_pass_def drop_pass_def Let_def
             split: sum.splits)
qed

text \<open>
  C8. The scheduler never runs two indexing passes concurrently: under every
  interleaving of timer ticks, manual triggers and steps of passes in flight, and
  whatever the sweeps do (they may throw), at most one pass is in flight and the flag
  is set exactly while one is. A call of \<open>performIndexing\<close> or \<open>triggerIndexing\<close> (and a
  timer tick or manual trigger in the interleaved model) that finds the flag set
  returns with the state unchanged, running no sweep; it only writes to the console.
  A pass that finds the flag clear sets it before any sweep runs (all sweeps are still
  pending and the store is untouched), and a whole pass started with the flag clear
  ends with the flag clear, also when a sweep throws.
\<close>

theorem single_flight_indexing:
  "(\<forall>evs. length (passes (run sweeps (idle w) evs)) \<le> 1
         \<and> (isIndexing (service (run sweeps (idle w) evs))
              \<longleftrightarrow> passes (run sweeps (idle w) evs) \<noteq> []))
   \<and> (isIndexing s \<longrightarrow>
        performIndexing sweeps (s, w) = (s, say ''Indexing already in progress, skipping...'' w)
        \<and> triggerIndexing sweeps (s, w)
            = (s, say ''Indexing already in progress, skipping...''
                    (say ''Manual indexing triggered'' w)))
   \<and> (isIndexing (service c) \<longrightarrow>
        step sweeps c TimerTick
          = c \<lparr> outside := say ''Indexing already in progress, skipping...'' (outside c) \<rparr>
        \<and> step sweeps c ManualTrigger
          = c \<lparr> outside := say ''Indexing already in progress, skipping...''
                              (say ''Manual indexing triggered'' (outside c)) \<rparr>)
   \<and> (\<not> isIndexing (service c) \<longrightarrow>
        isIndexing (service (step sweeps c TimerTick))
        \<and> passes (step sweeps c TimerTick) = passes c @ [sweeps]
        \<and> store (outside (step sweeps c TimerTick)) = store (outside c))
   \<and> (\<not> isIndexing s \<longrightarrow> fst (performIndexing sweeps (s, w)) = s)"
proof (intro conjI allI impI)
  fix evs
  have "single_flight (run sweeps (idle w) evs)"
    by (rule single_flight_run) (rule single_flight_idle)
  then show "length (passes (run sweeps (idle w) evs)) \<le> 1"
    and "isIndexing (service (run sweeps (idle w) evs)) \<longleftrightarrow> passes (run sweeps (idle w) evs) \<noteq> []"
    by (simp_all add: single_flight_def)
next
  assume "isIndexing s"
  then show "performIndexing sweeps (s, w) = (s, say ''Indexing already in progress, skipping...'' w)"
    and "triggerIndexing sweeps (s, w)
            = (s, say ''Indexing already in progress, skipping...''
                    (say ''Manual indexing triggered'' w))"
    by (simp_all add: performIndexing_busy triggerIndexing_busy)
next
  assume "isIndexing (service c)"
  then show "step sweeps c TimerTick
          = c \<lparr> outside := say ''Indexing already in progress, skipping...'' (outside c) \<rparr>"
    and "step sweeps c ManualTrigger
          = c \<lparr> outside := say ''Indexing already in progress, skipping...''
                              (say ''Manual indexing triggered'' (outside c)) \<rparr>"
    by (simp_all add: enter_pass_def)
next
  assume "\<not> isIndexing (service c)"
  then show "isIndexing (service (step sweeps c TimerTick))"
    and "passes (step sweeps c TimerTick) = passes c @ [sweeps]"
    and "store (outside (step sweeps c TimerTick)) = store (outside c)"
    by (simp_all add: enter_pass_def say_def)
next
  assume "\<not> isIndexing s"
  then show "fst (performIndexing sweeps (s, w)) = s"
    by (rule performIndexing_releases)
qed

lemmas example_sweeps_eval =
  run_def example_sweeps_def note_sweep_def failing_sweep_def idle_def enter_pass_def
  leave_pass_def drop_pass_def say_def empty_world_def

theorem single_flight_indexing_witness:
  "length (passes (run example_sweeps (idle empty_world)
      [TimerTick, ManualTrigger, Resume 0, TimerTick, Resume 0, TimerTick, Resume 0])) = 1
   \<and> isIndexing (service (run example_sweeps (idle empty_world)
      [TimerTick, ManualTrigger, Resume 0, TimerTick, Resume 0, TimerTick, Resume 0]))
   \<and> console (outside (run example_sweeps (idle empty_world)
      [TimerTick, ManualTrigger, Resume 0, TimerTick, Resume 0, TimerTick, Resume 0]))
      = [''Starting indexing process...'', ''Manual indexing triggered'',
         ''Indexing already in progress, skipping...'', ''documentation'',
         ''Indexing already in progress, skipping...'', ''about to throw'',
         ''Indexing process failed:'', ''Starting indexing process...'', ''documentation'']
   \<and> triggerIndexing example_sweeps
        (\<lparr> isIndexing = True, indexingInterval = Some 3600000 \<rparr>, empty_world)
       = (\<lparr> isIndexing = True, indexingInterval = Some 3600000 \<rparr>,
          \<lparr> store = [], console = [''Manual indexing triggered'',
                                    ''Indexing already in progress, skipping...''] \<rparr>)
   \<and> performIndexing example_sweeps
        (\<lparr> isIndexing = False, indexingInterval = Some 3600000 \<rparr>, empty_world)
       = (\<lparr> isIndexing = False, indexingInterval = Some 3600000 \<rparr>,
          \<lparr> store = [], console = [''Starting indexing process...'', ''documentation'',
                                    ''about to throw'', ''Indexing process failed:''] \<rparr>)"
  using
    single_flight_indexing[of example_sweeps empty_world
      "\<lparr> isIndexing = True, indexingInterval = Some 3600000 \<rparr>" "idle empty_world"]
    single_flight_indexing[of example_sweeps empty_world
      "\<lparr> isIndexing = False, indexingInterval = Some 3600000 \<rparr>"
      "run example_sweeps (idle empty_world) [TimerTick]"]
  by (simp add: example_sweeps_eval performIndexing_def)

section \<open>Failures inside a pass\<close>






























end
